theory Spec2Isabelle
  imports Main "HOL-Library.Sublist" "HOL-Library.Char_ord" "HOL-Library.List_Lexorder"
begin

section \<open>Overview\<close>

text \<open>
  A shallow embedding of the class \<^verbatim>\<open>SQLiteToSQLExporter\<close> of \<^verbatim>\<open>src/index.ts\<close>: the
  type mapper \<^verbatim>\<open>convertSQLiteType\<close>, the enumeration \<^verbatim>\<open>getTables\<close>, the renderers
  \<^verbatim>\<open>getCreateTableSQL\<close> and \<^verbatim>\<open>getInsertStatements\<close>, and the run \<^verbatim>\<open>export\<close>.
  The database binding and the file system are the environment of the run: what the
  three queries answer and whether the write succeeds are inputs, and a rejected promise
  is a value \<^term>\<open>Inl e\<close>. The command line around the class (\<^verbatim>\<open>parseArgs\<close>,
  \<^verbatim>\<open>main\<close>) and the console output are not modelled. The host's Unicode tables for
  upper case are an input as well (the parameter \<open>up\<close>, explained below).
\<close>

section \<open>Strings of the host language\<close>

text \<open>
  The exporter works on JavaScript strings. A string is modelled as \<^typ>\<open>string\<close>, a
  list of 8-bit units: a unit below 128 is an ASCII character, and the units from 128 on
  carry the text outside ASCII (as the bytes of UTF-8 do). The three string operations
  the exporter uses are \<^verbatim>\<open>toLowerCase\<close>, \<^verbatim>\<open>toUpperCase\<close> and \<^verbatim>\<open>includes\<close>.

  \<^verbatim>\<open>includes\<close> is the test for a contiguous substring, \<^const>\<open>sublist\<close> of the
  library.

  \<^verbatim>\<open>toLowerCase\<close> is used only to search the lowered string for the ASCII keywords
  \<^verbatim>\<open>int\<close>, \<^verbatim>\<open>integer\<close>, \<^verbatim>\<open>text\<close>, \<^verbatim>\<open>real\<close>, \<^verbatim>\<open>float\<close>, \<^verbatim>\<open>double\<close>,
  \<^verbatim>\<open>blob\<close>, \<^verbatim>\<open>char\<close> and \<^verbatim>\<open>varchar\<close>. It is modelled on the 26 ASCII letters,
  which decides these searches as the host does: lowering a character outside ASCII
  never yields a letter that completes one of the keywords.

  The result of \<^verbatim>\<open>toUpperCase\<close> is returned as text (line 177), so here the host's
  conversion counts in full. The host converts character by character, without regard
  to the neighbours: an ASCII letter becomes its capital, any other ASCII character
  stays, and a character outside ASCII becomes what the Unicode tables say, which may
  be longer and may be ASCII. The tables are not part of the repository; the host's
  conversion of a run of units outside ASCII is the parameter \<open>up\<close> of
  \<^verbatim>\<open>toUpperCase\<close> and of every function that depends on it.
\<close>

definition upper_letters :: string where
  "upper_letters = ''ABCDEFGHIJKLMNOPQRSTUVWXYZ''"

definition lower_letters :: string where
  "lower_letters = ''abcdefghijklmnopqrstuvwxyz''"

definition toLowerCase_char :: "char \<Rightarrow> char" where
  "toLowerCase_char c =
     (case map_of (zip upper_letters lower_letters) c of Some d \<Rightarrow> d | None \<Rightarrow> c)"

definition toLowerCase :: "string \<Rightarrow> string" where
  "toLowerCase s = map toLowerCase_char s"

text \<open>A unit is an ASCII character when its eighth bit is clear.\<close>

definition is_ascii :: "char \<Rightarrow> bool" where
  "is_ascii c = (\<not> digit7 c)"

text \<open>The capital of an ASCII character; it is applied to ASCII characters only.\<close>

definition toUpperCase_ascii :: "char \<Rightarrow> char" where
  "toUpperCase_ascii c =
     (case map_of (zip lower_letters upper_letters) c of Some d \<Rightarrow> d | None \<Rightarrow> c)"

text \<open>
  The host's conversion \<open>up\<close> applied to a run of units outside ASCII; there is nothing
  to convert when the run is empty.
\<close>

definition upper_outside :: "(string \<Rightarrow> string) \<Rightarrow> string \<Rightarrow> string" where
  "upper_outside up run = (if run = [] then [] else up run)"

text \<open>
  \<^verbatim>\<open>toUpperCase\<close>, reading the string from the left with the run of units outside
  ASCII met so far: an ASCII character ends the run, which is converted by the host,
  and is followed by its own capital.
\<close>

fun toUpperCase_pending :: "(string \<Rightarrow> string) \<Rightarrow> string \<Rightarrow> string \<Rightarrow> string" where
  "toUpperCase_pending up run [] = upper_outside up run"
| "toUpperCase_pending up run (c # cs) =
     (if is_ascii c
      then upper_outside up run @ toUpperCase_ascii c # toUpperCase_pending up [] cs
      else toUpperCase_pending up (run @ [c]) cs)"

definition toUpperCase :: "(string \<Rightarrow> string) \<Rightarrow> string \<Rightarrow> string" where
  "toUpperCase up s = toUpperCase_pending up [] s"

definition str_includes :: "string \<Rightarrow> string \<Rightarrow> bool" where
  "str_includes s sub = sublist sub s"

section \<open>The type mapper\<close>

text \<open>
  \<^verbatim>\<open>convertSQLiteType\<close> (lines 165-182), branch for branch, the unreachable
  \<^verbatim>\<open>varchar\<close> branch included. The first argument is the host's upper-casing of the
  text outside ASCII.
\<close>

definition convertSQLiteType :: "(string \<Rightarrow> string) \<Rightarrow> string \<Rightarrow> string" where
  "convertSQLiteType up sqliteType =
     (let type = toLowerCase sqliteType in
      if str_includes type ''int'' then ''INT''
      else if str_includes type ''text'' then ''TEXT''
      else if str_includes type ''real'' \<or> str_includes type ''float''
              \<or> str_includes type ''double'' then ''DECIMAL(10,2)''
      else if str_includes type ''blob'' then ''BLOB''
      else if str_includes type ''char'' then toUpperCase up sqliteType
      else if str_includes type ''varchar'' then toUpperCase up sqliteType
      else ''TEXT'')"

text \<open>The same function with the \<^verbatim>\<open>varchar\<close> branch (line 178) taken out.\<close>

definition convertSQLiteType_without_varchar ::
  "(string \<Rightarrow> string) \<Rightarrow> string \<Rightarrow> string" where
  "convertSQLiteType_without_varchar up sqliteType =
     (let type = toLowerCase sqliteType in
      if str_includes type ''int'' then ''INT''
      else if str_includes type ''text'' then ''TEXT''
      else if str_includes type ''real'' \<or> str_includes type ''float''
              \<or> str_includes type ''double'' then ''DECIMAL(10,2)''
      else if str_includes type ''blob'' then ''BLOB''
      else if str_includes type ''char'' then toUpperCase up sqliteType
      else ''TEXT'')"

section \<open>The data model\<close>

text \<open>
  \<^verbatim>\<open>ColumnInfo\<close> (lines 7-14) is one row of \<^verbatim>\<open>PRAGMA table_info\<close>. The flags
  \<^verbatim>\<open>notnull\<close> and \<^verbatim>\<open>pk\<close> are numbers that the code tests for truthiness; a number
  is truthy when it is not zero. \<^verbatim>\<open>dflt_value\<close> is a string or \<^verbatim>\<open>null\<close>.
\<close>

record ColumnInfo =
  cid :: int
  name :: string
  type :: string
  notnull :: int
  dflt_value :: "string option"
  pk :: int

definition truthy :: "int \<Rightarrow> bool" where
  "truthy n = (n \<noteq> 0)"

text \<open>
  A cell of a row, as the sqlite3 binding hands it over: \<^verbatim>\<open>null\<close>, a string, or any
  other value (a number, a Buffer). The exporter passes such a value on untouched and
  \<^verbatim>\<open>join\<close> turns it into text, so it is carried here by the text that the host's
  string conversion gives it.
\<close>

datatype cell = Null | Str string | Other string

text \<open>
  A row is a JavaScript object: its keys in the order \<^verbatim>\<open>Object.keys\<close> lists them,
  each with its cell. \<^verbatim>\<open>row[col]\<close> is \<^verbatim>\<open>undefined\<close> (here \<^const>\<open>None\<close>) for a
  key the row does not have.
\<close>

type_synonym row = "(string \<times> cell) list"

definition Object_keys :: "row \<Rightarrow> string list" where
  "Object_keys r = map fst r"

definition row_get :: "row \<Rightarrow> string \<Rightarrow> cell option" where
  "row_get r col = map_of r col"

text \<open>A rejected promise carries the error of the database binding or of the file system.\<close>

datatype error = Error string

text \<open>
  The database handle, as far as the exporter queries it: the rows of the catalogue
  \<^verbatim>\<open>sqlite_master\<close> (its columns \<^verbatim>\<open>type\<close> and \<^verbatim>\<open>name\<close>), the answer to
  \<^verbatim>\<open>PRAGMA table_info(t)\<close> and the answer to \<^verbatim>\<open>SELECT * FROM t\<close> for a table name
  \<^verbatim>\<open>t\<close>. Each query either fails (\<^const>\<open>Inl\<close>) or gives its rows.
\<close>

record master_row =
  obj_type :: string
  obj_name :: string

record database =
  sqlite_master :: "error + master_row list"
  table_info :: "string \<Rightarrow> error + ColumnInfo list"
  select_all :: "string \<Rightarrow> error + row list"

text \<open>
  What a run depends on besides the database: the text of
  \<^verbatim>\<open>new Date().toISOString()\<close> and the outcome of \<^verbatim>\<open>fs.writeFile\<close> for a path and a
  content (\<^const>\<open>None\<close> when the write succeeds).
\<close>

record system =
  db :: database
  now :: string
  fs_writeFile :: "string \<Rightarrow> string \<Rightarrow> error option"

section \<open>Characters and joining\<close>

definition backtick :: char where
  "backtick = CHR 0x60"

definition single_quote :: char where
  "single_quote = CHR 0x27"

definition newline :: char where
  "newline = CHR 0x0A"

text \<open>\<^verbatim>\<open>Array.prototype.join\<close> on an array of strings.\<close>

fun join :: "string \<Rightarrow> string list \<Rightarrow> string" where
  "join sep [] = []"
| "join sep [x] = x"
| "join sep (x # y # ys) = x @ sep @ join sep (y # ys)"

section \<open>Enumerating the tables\<close>

text \<open>
  The operator \<^verbatim>\<open>LIKE\<close> of the engine, pattern first: \<^verbatim>\<open>%\<close> matches any run of
  characters, \<^verbatim>\<open>_\<close> matches any one character, and any other pattern character
  matches itself without regard to the case of ASCII letters.
\<close>

fun sql_like :: "string \<Rightarrow> string \<Rightarrow> bool" where
  "sql_like [] s = (s = [])"
| "sql_like (p # ps) s =
     (if p = CHR ''%'' then
        (sql_like ps s \<or> (case s of [] \<Rightarrow> False | _ # t \<Rightarrow> sql_like (p # ps) t))
      else
        (case s of
           [] \<Rightarrow> False
         | c # t \<Rightarrow> (p = CHR ''_'' \<or> toLowerCase_char p = toLowerCase_char c) \<and> sql_like ps t))"

text \<open>
  \<^verbatim>\<open>getTables\<close> (lines 67-80): the query
  \<^verbatim>\<open>SELECT name FROM sqlite_master WHERE type='table' AND name NOT LIKE 'sqlite_%' ORDER BY name\<close>
  and the projection \<^verbatim>\<open>rows.map((row) => row.name)\<close>. The column \<^verbatim>\<open>name\<close> has the
  engine's binary collation, the order of the character codes.
\<close>

definition tables_query :: "master_row list \<Rightarrow> master_row list" where
  "tables_query master =
     sort_key obj_name
       (filter (\<lambda>r. obj_type r = ''table'' \<and> \<not> sql_like ''sqlite_%'' (obj_name r)) master)"

definition getTables :: "database \<Rightarrow> error + string list" where
  "getTables d =
     (case sqlite_master d of
        Inl err \<Rightarrow> Inl err
      | Inr master \<Rightarrow> Inr (map obj_name (tables_query master)))"

section \<open>The statement renderer\<close>

text \<open>
  The callback of \<^verbatim>\<open>columns.map\<close> in \<^verbatim>\<open>getCreateTableSQL\<close> (lines 87-111) builds one
  column line by appending pieces to \<^verbatim>\<open>def\<close>. \<^term>\<open>columnPieces col\<close> lists the pieces
  in the order they are appended; the line is their concatenation.
\<close>

definition columnPieces :: "(string \<Rightarrow> string) \<Rightarrow> ColumnInfo \<Rightarrow> string list" where
  "columnPieces up col =
     [''  '' @ [backtick] @ name col @ [backtick]]
     @ ['' '' @ convertSQLiteType up (type col)]
     @ (if truthy (notnull col) \<and> \<not> truthy (pk col) then ['' NOT NULL''] else [])
     @ (if truthy (pk col) then
          ['' PRIMARY KEY'']
          @ (if str_includes (toLowerCase (type col)) ''integer''
             then ['' AUTO_INCREMENT''] else [])
        else [])
     @ (case dflt_value col of None \<Rightarrow> [] | Some d \<Rightarrow> ['' DEFAULT '' @ d])"

definition columnDef :: "(string \<Rightarrow> string) \<Rightarrow> ColumnInfo \<Rightarrow> string" where
  "columnDef up col = concat (columnPieces up col)"

text \<open>The template of line 113.\<close>

definition createTableStatement ::
  "(string \<Rightarrow> string) \<Rightarrow> string \<Rightarrow> ColumnInfo list \<Rightarrow> string" where
  "createTableStatement up tableName columns =
     ''CREATE TABLE '' @ [backtick] @ tableName @ [backtick] @ '' ('' @ [newline]
     @ join ('','' @ [newline]) (map (columnDef up) columns) @ [newline] @ '');''"

definition getCreateTableSQL ::
  "(string \<Rightarrow> string) \<Rightarrow> database \<Rightarrow> string \<Rightarrow> error + string" where
  "getCreateTableSQL up d tableName =
     (case table_info d tableName of
        Inl err \<Rightarrow> Inl err
      | Inr columns \<Rightarrow> Inr (createTableStatement up tableName columns))"

text \<open>
  \<^verbatim>\<open>value.replace(/'/g, "''")\<close> (line 149): every single quote becomes two.
\<close>

definition escape_quotes :: "string \<Rightarrow> string" where
  "escape_quotes s =
     concat (map (\<lambda>c. if c = single_quote then [single_quote, single_quote] else [c]) s)"

definition quoteText :: "string \<Rightarrow> string" where
  "quoteText s = [single_quote] @ escape_quotes s @ [single_quote]"

text \<open>
  The callback of lines 144-152 followed by the string conversion of \<^verbatim>\<open>join\<close>:
  \<^verbatim>\<open>null\<close> gives \<^verbatim>\<open>NULL\<close>, a string is quoted, any other value is converted by the
  host, and \<^verbatim>\<open>undefined\<close> (a key the row lacks) is joined as the empty string.
\<close>

definition renderCell :: "cell option \<Rightarrow> string" where
  "renderCell v =
     (case v of
        None \<Rightarrow> []
      | Some Null \<Rightarrow> ''NULL''
      | Some (Str s) \<Rightarrow> quoteText s
      | Some (Other s) \<Rightarrow> s)"

definition insertStatement :: "string \<Rightarrow> string list \<Rightarrow> row \<Rightarrow> string" where
  "insertStatement tableName columns r =
     ''INSERT INTO '' @ [backtick] @ tableName @ [backtick] @ '' (''
     @ join '', '' (map (\<lambda>col. [backtick] @ col @ [backtick]) columns)
     @ '') VALUES ('' @ join '', '' (map (\<lambda>col. renderCell (row_get r col)) columns) @ '');''"

text \<open>
  The body of the callback in \<^verbatim>\<open>getInsertStatements\<close> (lines 133-160): no rows give
  no statements; otherwise the keys of the first row fix the columns of every statement.
\<close>

definition insertStatements :: "string \<Rightarrow> row list \<Rightarrow> string list" where
  "insertStatements tableName rows =
     (case rows of
        [] \<Rightarrow> []
      | r0 # _ \<Rightarrow> map (insertStatement tableName (Object_keys r0)) rows)"

definition getInsertStatements :: "database \<Rightarrow> string \<Rightarrow> error + string list" where
  "getInsertStatements d tableName =
     (case select_all d tableName of
        Inl err \<Rightarrow> Inl err
      | Inr rows \<Rightarrow> Inr (insertStatements tableName rows))"

section \<open>The export run\<close>

text \<open>
  One pass of the loop body in \<^verbatim>\<open>export\<close> (lines 40-56): the lines it pushes for
  one table, or the error of a rejected read.
\<close>

definition exportTable ::
  "(string \<Rightarrow> string) \<Rightarrow> database \<Rightarrow> string \<Rightarrow> error + string list" where
  "exportTable up d tableName =
     (case getCreateTableSQL up d tableName of
        Inl err \<Rightarrow> Inl err
      | Inr createTableSQL \<Rightarrow>
          (case getInsertStatements d tableName of
             Inl err \<Rightarrow> Inl err
           | Inr stmts \<Rightarrow>
               Inr ([''-- Table: '' @ tableName, createTableSQL, []]
                    @ (if length stmts > 0
                       then [''-- Data for table: '' @ tableName] @ stmts @ [[]]
                       else []))))"

text \<open>
  The loop over the tables (lines 39-57), with the array \<^verbatim>\<open>sqlStatements\<close> passed
  along. A rejected read ends the loop with the error; the array built so far is not
  part of that result.
\<close>

fun exportTables ::
  "(string \<Rightarrow> string) \<Rightarrow> database \<Rightarrow> string list \<Rightarrow> string list
    \<Rightarrow> error + string list" where
  "exportTables up d [] sqlStatements = Inr sqlStatements"
| "exportTables up d (tableName # tables) sqlStatements =
     (case exportTable up d tableName of
        Inl err \<Rightarrow> Inl err
      | Inr pushed \<Rightarrow> exportTables up d tables (sqlStatements @ pushed))"

definition header :: "string \<Rightarrow> string list" where
  "header timestamp =
     [''-- Exported from SQLite database'', ''-- Generated on '' @ timestamp, []]"

text \<open>
  The lines of the document (lines 28-57): the header, then the loop. The result is an
  error when a read was rejected.
\<close>

definition exportLines ::
  "(string \<Rightarrow> string) \<Rightarrow> database \<Rightarrow> string \<Rightarrow> error + string list" where
  "exportLines up d timestamp =
     (case getTables d of
        Inl err \<Rightarrow> Inl err
      | Inr tables \<Rightarrow> exportTables up d tables (header timestamp))"

text \<open>
  \<^verbatim>\<open>export\<close> (lines 25-65) returns the outcome of the run and the list of calls of
  \<^verbatim>\<open>fs.writeFile\<close> it made, each a path and a content. The console output is left out.
\<close>

definition export ::
  "(string \<Rightarrow> string) \<Rightarrow> system \<Rightarrow> string \<Rightarrow> (error + unit) \<times> (string \<times> string) list" where
  "export up sys outputFile =
     (case exportLines up (db sys) (now sys) of
        Inl err \<Rightarrow> (Inl err, [])
      | Inr sqlStatements \<Rightarrow>
          (let sqlContent = join [newline] sqlStatements in
           case fs_writeFile sys outputFile sqlContent of
             Some err \<Rightarrow> (Inl err, [(outputFile, sqlContent)])
           | None \<Rightarrow> (Inr (), [(outputFile, sqlContent)])))"

section \<open>Reading a literal back\<close>

text \<open>
  The reader of a single-quoted SQL literal, the inverse the round trip of the quoting is
  measured against (it is not part of the exporter): after the opening quote, two quotes
  in a row stand for one quote of the content, a quote at the very end closes the
  literal, and any other character stands for itself. A literal that is not closed, or
  that goes on after its closing quote, is refused.
\<close>

fun unquote_body :: "string \<Rightarrow> string option" where
  "unquote_body [] = None"
| "unquote_body (c # cs) =
     (if c = single_quote then
        (case cs of
           [] \<Rightarrow> Some []
         | d # ds \<Rightarrow>
             if d = single_quote then map_option ((#) single_quote) (unquote_body ds)
             else None)
      else map_option ((#) c) (unquote_body cs))"

definition parseLiteral :: "string \<Rightarrow> string option" where
  "parseLiteral s =
     (case s of
        [] \<Rightarrow> None
      | c # cs \<Rightarrow> if c = single_quote then unquote_body cs else None)"

section \<open>Example inputs\<close>

text \<open>
  A host conversion for the examples: it turns the unit \<^verbatim>\<open>0xE9\<close> (a small e with
  acute accent in Latin-1) into \<^verbatim>\<open>0xC9\<close> (its capital) and keeps every other run.
\<close>

definition accent_host :: "string \<Rightarrow> string" where
  "accent_host run = (if run = [CHR 0xE9] then [CHR 0xC9] else run)"

text \<open>
  The columns of the specification's example table \<^verbatim>\<open>items\<close>, with the
  \<^verbatim>\<open>notnull\<close> flag of the key column set and a default on the price.
\<close>

definition name_column :: ColumnInfo where
  "name_column =
     \<lparr>cid = 1, name = ''name'', type = ''TEXT'', notnull = 1, dflt_value = None, pk = 0\<rparr>"

definition id_column :: ColumnInfo where
  "id_column =
     \<lparr>cid = 0, name = ''id'', type = ''INTEGER'', notnull = 1, dflt_value = None, pk = 1\<rparr>"

definition price_column :: ColumnInfo where
  "price_column =
     \<lparr>cid = 2, name = ''price'', type = ''REAL'', notnull = 0, dflt_value = Some ''0'', pk = 0\<rparr>"

text \<open>A primary-key column declared \<^verbatim>\<open>INT\<close>, and one declared \<^verbatim>\<open>TEXT\<close>.\<close>

definition int_key_column :: ColumnInfo where
  "int_key_column =
     \<lparr>cid = 0, name = ''id'', type = ''INT'', notnull = 0, dflt_value = None, pk = 1\<rparr>"

definition text_key_column :: ColumnInfo where
  "text_key_column =
     \<lparr>cid = 0, name = ''code'', type = ''TEXT'', notnull = 0, dflt_value = None, pk = 1\<rparr>"

text \<open>
  A database with the table \<^verbatim>\<open>items\<close> of the example (two rows), an empty table
  \<^verbatim>\<open>archive\<close>, an index and a table of the engine's own; and the same database with
  the row scan of \<^verbatim>\<open>items\<close> failing.
\<close>

definition items_rows :: "row list" where
  "items_rows =
     [[(''id'', Other ''1''), (''name'', Str ''Tea''), (''price'', Other ''3.5'')],
      [(''id'', Other ''2''),
       (''name'', Str (''O'' @ [single_quote] @ ''Brien'' @ [single_quote] @ ''s Mug'')),
       (''price'', Null)]]"

definition items_master :: "master_row list" where
  "items_master =
     [\<lparr>obj_type = ''table'', obj_name = ''items''\<rparr>,
      \<lparr>obj_type = ''index'', obj_name = ''items_by_name''\<rparr>,
      \<lparr>obj_type = ''table'', obj_name = ''sqlite_sequence''\<rparr>,
      \<lparr>obj_type = ''table'', obj_name = ''archive''\<rparr>]"

definition items_db :: database where
  "items_db =
     \<lparr>sqlite_master = Inr items_master,
      table_info = (\<lambda>t. Inr [id_column, name_column, price_column]),
      select_all = (\<lambda>t. if t = ''items'' then Inr items_rows else Inr [])\<rparr>"

definition broken_db :: database where
  "broken_db =
     items_db\<lparr>select_all :=
       (\<lambda>t. if t = ''items'' then Inl (Error ''SQLITE_CORRUPT'') else Inr [])\<rparr>"

definition always_writes :: "string \<Rightarrow> string \<Rightarrow> error option" where
  "always_writes path content = None"

definition example_system :: "database \<Rightarrow> string \<Rightarrow> system" where
  "example_system d timestamp = \<lparr>db = d, now = timestamp, fs_writeFile = always_writes\<rparr>"

text \<open>Two rows whose keys come in different orders.\<close>

definition shuffled_rows :: "row list" where
  "shuffled_rows =
     [[(''id'', Other ''1''), (''name'', Str ''Tea'')],
      [(''name'', Str ''Mug''), (''id'', Other ''2'')]]"

definition shuffled_db :: database where
  "shuffled_db = items_db\<lparr>select_all := (\<lambda>t. Inr shuffled_rows)\<rparr>"

section \<open>User tables\<close>

text \<open>
  The engine keeps the names that begin with \<^verbatim>\<open>sqlite_\<close>, in any case of the letters,
  for its own tables; every other table of the catalogue is a user table.
\<close>

definition reserved_name :: "string \<Rightarrow> bool" where
  "reserved_name n = prefix ''sqlite_'' (toLowerCase n)"

definition user_tables :: "master_row list \<Rightarrow> master_row list" where
  "user_tables master =
     filter (\<lambda>r. obj_type r = ''table'' \<and> \<not> reserved_name (obj_name r)) master"

text \<open>
  A database with one table, created by \<^verbatim>\<open>CREATE TABLE sqlitex (id INTEGER)\<close>, and no
  rows in it.
\<close>

definition sqlitex_db :: database where
  "sqlitex_db =
     \<lparr>sqlite_master = Inr [\<lparr>obj_type = ''table'', obj_name = ''sqlitex''\<rparr>],
      table_info = (\<lambda>t. Inr [\<lparr>cid = 0, name = ''id'', type = ''INTEGER'', notnull = 0,
                               dflt_value = None, pk = 0\<rparr>]),
      select_all = (\<lambda>t. Inr [])\<rparr>"

section \<open>Facts about strings\<close>

lemmas case_defs =
  toLowerCase_def toUpperCase_def toLowerCase_char_def toUpperCase_ascii_def
  upper_letters_def lower_letters_def is_ascii_def upper_outside_def

lemma str_includes_mono: "sublist a b \<Longrightarrow> str_includes s b \<Longrightarrow> str_includes s a"
  unfolding str_includes_def by (rule sublist_order.order.trans)

lemma varchar_includes_char: "str_includes l ''varchar'' \<Longrightarrow> str_includes l ''char''"
  by (rule str_includes_mono[of "''char''" "''varchar''"]) (simp_all add: sublist_code)

section \<open>The type mapper: priority of the rules\<close>

text \<open>
  Claim C1. For every declared type string \<open>s\<close>, with \<open>l\<close> its lowered form,
  \<^const>\<open>convertSQLiteType\<close> answers by the first rule that matches: \<open>l\<close> contains
  \<^verbatim>\<open>int\<close>: \<^verbatim>\<open>INT\<close>; else contains \<^verbatim>\<open>text\<close>: \<^verbatim>\<open>TEXT\<close>; else contains
  \<^verbatim>\<open>real\<close>, \<^verbatim>\<open>float\<close> or \<^verbatim>\<open>double\<close>: \<^verbatim>\<open>DECIMAL(10,2)\<close>; else contains
  \<^verbatim>\<open>blob\<close>: \<^verbatim>\<open>BLOB\<close>; else contains \<^verbatim>\<open>char\<close> (a string that contains
  \<^verbatim>\<open>varchar\<close> does): the declared string \<open>s\<close> itself in upper case, as the host
  converts it, whatever the host's tables \<open>up\<close> for the text outside ASCII are; and in
  every other case \<^verbatim>\<open>TEXT\<close>.
\<close>

theorem convertSQLiteType_priority:
  fixes s :: string
  defines "l \<equiv> toLowerCase s"
  shows "(str_includes l ''int'' \<longrightarrow> convertSQLiteType up s = ''INT'')
    \<and> (\<not> str_includes l ''int'' \<and> str_includes l ''text'' \<longrightarrow> convertSQLiteType up s = ''TEXT'')
    \<and> (\<not> str_includes l ''int'' \<and> \<not> str_includes l ''text''
         \<and> (str_includes l ''real'' \<or> str_includes l ''float'' \<or> str_includes l ''double'')
         \<longrightarrow> convertSQLiteType up s = ''DECIMAL(10,2)'')
    \<and> (\<not> str_includes l ''int'' \<and> \<not> str_includes l ''text''
         \<and> \<not> str_includes l ''real'' \<and> \<not> str_includes l ''float''
         \<and> \<not> str_includes l ''double'' \<and> str_includes l ''blob''
         \<longrightarrow> convertSQLiteType up s = ''BLOB'')
    \<and> (\<not> str_includes l ''int'' \<and> \<not> str_includes l ''text''
         \<and> \<not> str_includes l ''real'' \<and> \<not> str_includes l ''float''
         \<and> \<not> str_includes l ''double'' \<and> \<not> str_includes l ''blob''
         \<and> (str_includes l ''char'' \<or> str_includes l ''varchar'')
         \<longrightarrow> convertSQLiteType up s = toUpperCase up s)
    \<and> (\<not> str_includes l ''int'' \<and> \<not> str_includes l ''text''
         \<and> \<not> str_includes l ''real'' \<and> \<not> str_includes l ''float''
         \<and> \<not> str_includes l ''double'' \<and> \<not> str_includes l ''blob''
         \<and> \<not> str_includes l ''char''
         \<longrightarrow> convertSQLiteType up s = ''TEXT'')"
  using varchar_includes_char[of l]
  by (auto simp add: convertSQLiteType_def Let_def l_def)

text \<open>
  The theorem at six declared types, one for each rule:
  \<^verbatim>\<open>BigInt\<close>, \<^verbatim>\<open>Text\<close>, \<^verbatim>\<open>DOUBLE PRECISION\<close>, \<^verbatim>\<open>blob\<close>, \<^verbatim>\<open>VarChar(50)\<close> and
  \<^verbatim>\<open>datetime\<close>; and at the declared type \<^verbatim>\<open>char\<close>, accented e, \<^verbatim>\<open>(10)\<close>, which
  the host of the examples returns with the accented letter as a capital.
\<close>

theorem convertSQLiteType_priority_witness:
  "convertSQLiteType accent_host ''BigInt'' = ''INT''
   \<and> convertSQLiteType accent_host ''Text'' = ''TEXT''
   \<and> convertSQLiteType accent_host ''DOUBLE PRECISION'' = ''DECIMAL(10,2)''
   \<and> convertSQLiteType accent_host ''blob'' = ''BLOB''
   \<and> convertSQLiteType accent_host ''VarChar(50)'' = ''VARCHAR(50)''
   \<and> convertSQLiteType accent_host ''datetime'' = ''TEXT''
   \<and> convertSQLiteType accent_host (''char'' @ [CHR 0xE9] @ ''(10)'')
       = ''CHAR'' @ [CHR 0xC9] @ ''(10)''"
proof -
  have h7: "\<not> str_includes (toLowerCase (''char'' @ [CHR 0xE9] @ ''(10)'')) ''int''
           \<and> \<not> str_includes (toLowerCase (''char'' @ [CHR 0xE9] @ ''(10)'')) ''text''
           \<and> \<not> str_includes (toLowerCase (''char'' @ [CHR 0xE9] @ ''(10)'')) ''real''
           \<and> \<not> str_includes (toLowerCase (''char'' @ [CHR 0xE9] @ ''(10)'')) ''float''
           \<and> \<not> str_includes (toLowerCase (''char'' @ [CHR 0xE9] @ ''(10)'')) ''double''
           \<and> \<not> str_includes (toLowerCase (''char'' @ [CHR 0xE9] @ ''(10)'')) ''blob''
           \<and> str_includes (toLowerCase (''char'' @ [CHR 0xE9] @ ''(10)'')) ''char''"
    by (simp add: case_defs str_includes_def sublist_code)
  have h7u: "toUpperCase accent_host (''char'' @ [CHR 0xE9] @ ''(10)'')
      = ''CHAR'' @ [CHR 0xC9] @ ''(10)''"
    by (simp add: case_defs accent_host_def)
  have h1: "str_includes (toLowerCase ''BigInt'') ''int''"
    by (simp add: case_defs str_includes_def sublist_code)
  have h2: "\<not> str_includes (toLowerCase ''Text'') ''int''
           \<and> str_includes (toLowerCase ''Text'') ''text''"
    by (simp add: case_defs str_includes_def sublist_code)
  have h3: "\<not> str_includes (toLowerCase ''DOUBLE PRECISION'') ''int''
           \<and> \<not> str_includes (toLowerCase ''DOUBLE PRECISION'') ''text''
           \<and> str_includes (toLowerCase ''DOUBLE PRECISION'') ''double''"
    by (simp add: case_defs str_includes_def sublist_code)
  have h4: "\<not> str_includes (toLowerCase ''blob'') ''int''
           \<and> \<not> str_includes (toLowerCase ''blob'') ''text''
           \<and> \<not> str_includes (toLowerCase ''blob'') ''real''
           \<and> \<not> str_includes (toLowerCase ''blob'') ''float''
           \<and> \<not> str_includes (toLowerCase ''blob'') ''double''
           \<and> str_includes (toLowerCase ''blob'') ''blob''"
    by (simp add: case_defs str_includes_def sublist_code)
  have h5: "\<not> str_includes (toLowerCase ''VarChar(50)'') ''int''
           \<and> \<not> str_includes (toLowerCase ''VarChar(50)'') ''text''
           \<and> \<not> str_includes (toLowerCase ''VarChar(50)'') ''real''
           \<and> \<not> str_includes (toLowerCase ''VarChar(50)'') ''float''
           \<and> \<not> str_includes (toLowerCase ''VarChar(50)'') ''double''
           \<and> \<not> str_includes (toLowerCase ''VarChar(50)'') ''blob''
           \<and> str_includes (toLowerCase ''VarChar(50)'') ''varchar''"
    by (simp add: case_defs str_includes_def sublist_code)
  have h5u: "toUpperCase accent_host ''VarChar(50)'' = ''VARCHAR(50)''"
    by (simp add: case_defs)
  have h6: "\<not> str_includes (toLowerCase ''datetime'') ''int''
           \<and> \<not> str_includes (toLowerCase ''datetime'') ''text''
           \<and> \<not> str_includes (toLowerCase ''datetime'') ''real''
           \<and> \<not> str_includes (toLowerCase ''datetime'') ''float''
           \<and> \<not> str_includes (toLowerCase ''datetime'') ''double''
           \<and> \<not> str_includes (toLowerCase ''datetime'') ''blob''
           \<and> \<not> str_includes (toLowerCase ''datetime'') ''char''"
    by (simp add: case_defs str_includes_def sublist_code)
  show ?thesis
    using convertSQLiteType_priority[where s = "''BigInt''" and up = accent_host] h1
      convertSQLiteType_priority[where s = "''Text''" and up = accent_host] h2
      convertSQLiteType_priority[where s = "''DOUBLE PRECISION''" and up = accent_host] h3
      convertSQLiteType_priority[where s = "''blob''" and up = accent_host] h4
      convertSQLiteType_priority[where s = "''VarChar(50)''" and up = accent_host] h5 h5u
      convertSQLiteType_priority[where s = "''datetime''" and up = accent_host] h6
      convertSQLiteType_priority[where s = "''char'' @ [CHR 0xE9] @ ''(10)''"
        and up = accent_host] h7 h7u
    by metis
qed

section \<open>The type mapper: the \<^verbatim>\<open>varchar\<close> rule\<close>

text \<open>
  Claim C10. The branch for \<^verbatim>\<open>varchar\<close> is never taken: for every input,
  \<^const>\<open>convertSQLiteType\<close> returns what the same function without that branch
  returns, since a lowered string that contains \<^verbatim>\<open>varchar\<close> contains \<^verbatim>\<open>char\<close>
  and the rule for \<^verbatim>\<open>char\<close> comes first.
\<close>

theorem convertSQLiteType_varchar_dead:
  "convertSQLiteType up s = convertSQLiteType_without_varchar up s"
  using varchar_includes_char[of "toLowerCase s"]
  by (auto simp add: convertSQLiteType_def convertSQLiteType_without_varchar_def Let_def)

theorem convertSQLiteType_varchar_dead_witness:
  "convertSQLiteType accent_host ''varchar(50)'' = ''VARCHAR(50)''
   \<and> convertSQLiteType_without_varchar accent_host ''varchar(50)'' = ''VARCHAR(50)''"
proof -
  have "convertSQLiteType_without_varchar accent_host ''varchar(50)'' = ''VARCHAR(50)''"
    by (simp add: convertSQLiteType_without_varchar_def case_defs str_includes_def sublist_code)
  then show ?thesis
    using convertSQLiteType_varchar_dead[where s = "''varchar(50)''" and up = accent_host] by simp
qed

section \<open>Facts about the mapped type\<close>

text \<open>
  An ASCII character splits the work of \<^const>\<open>toUpperCase_pending\<close>: what comes before
  it and what comes after it are converted apart.
\<close>

lemma toUpperCase_pending_ascii:
  "is_ascii a \<Longrightarrow>
   toUpperCase_pending up run (ps @ a # rest)
   = toUpperCase_pending up run ps @ toUpperCase_ascii a # toUpperCase_pending up [] rest"
  by (induction ps arbitrary: run) simp_all

lemma lowers_to_char:
  "toLowerCase_char c = CHR ''c'' \<Longrightarrow> is_ascii c \<and> toUpperCase_ascii c = CHR ''C''"
  "toLowerCase_char c = CHR ''h'' \<Longrightarrow> is_ascii c \<and> toUpperCase_ascii c = CHR ''H''"
  "toLowerCase_char c = CHR ''a'' \<Longrightarrow> is_ascii c \<and> toUpperCase_ascii c = CHR ''A''"
  "toLowerCase_char c = CHR ''r'' \<Longrightarrow> is_ascii c \<and> toUpperCase_ascii c = CHR ''R''"
  by (auto simp add: toLowerCase_char_def toUpperCase_ascii_def upper_letters_def
        lower_letters_def is_ascii_def split: option.splits if_splits)

text \<open>
  Whatever the host does outside ASCII, a declared type whose lowered form contains
  \<^verbatim>\<open>char\<close> contains \<^verbatim>\<open>CHAR\<close> in upper case.
\<close>

lemma char_kept_in_upper:
  assumes "str_includes (toLowerCase t) ''char''"
  shows "str_includes (toUpperCase up t) ''CHAR''"
proof -
  from assms obtain ps ss where "map toLowerCase_char t = ps @ ''char'' @ ss"
    by (auto simp add: str_includes_def sublist_def toLowerCase_def)
  then obtain ps' c1 c2 c3 c4 ss' where t: "t = ps' @ c1 # c2 # c3 # c4 # ss'"
    and l: "toLowerCase_char c1 = CHR ''c''" "toLowerCase_char c2 = CHR ''h''"
      "toLowerCase_char c3 = CHR ''a''" "toLowerCase_char c4 = CHR ''r''"
    by (auto simp add: map_eq_append_conv map_eq_Cons_conv)
  from l lowers_to_char have a: "is_ascii c1" "is_ascii c2" "is_ascii c3" "is_ascii c4"
    and u: "toUpperCase_ascii c1 = CHR ''C''" "toUpperCase_ascii c2 = CHR ''H''"
      "toUpperCase_ascii c3 = CHR ''A''" "toUpperCase_ascii c4 = CHR ''R''"
    by blast+
  have "toUpperCase up t
      = toUpperCase_pending up [] ps' @ ''CHAR'' @ toUpperCase_pending up [] ss'"
    using a u by (simp add: t toUpperCase_def toUpperCase_pending_ascii upper_outside_def)
  then show ?thesis
    unfolding str_includes_def by (metis sublist_appendI)
qed

lemma convertSQLiteType_cases:
  "convertSQLiteType up t \<in> {''INT'', ''TEXT'', ''DECIMAL(10,2)'', ''BLOB''}
   \<or> (convertSQLiteType up t = toUpperCase up t \<and> str_includes (toLowerCase t) ''char'')"
  using varchar_includes_char[of "toLowerCase t"]
  by (auto simp add: convertSQLiteType_def Let_def)

text \<open>The mapped type is none of the constraint keywords.\<close>

lemma convertSQLiteType_not_keyword:
  "convertSQLiteType up t \<noteq> ''NOT NULL''"
  "convertSQLiteType up t \<noteq> ''PRIMARY KEY''"
  "convertSQLiteType up t \<noteq> ''AUTO_INCREMENT''"
proof -
  have k: "\<not> str_includes ''NOT NULL'' ''CHAR''"
     "\<not> str_includes ''PRIMARY KEY'' ''CHAR''"
     "\<not> str_includes ''AUTO_INCREMENT'' ''CHAR''"
    by (simp_all add: str_includes_def sublist_code)
  show "convertSQLiteType up t \<noteq> ''NOT NULL''"
    using convertSQLiteType_cases[of up t] k(1) char_kept_in_upper[of t up]
    by auto
  show "convertSQLiteType up t \<noteq> ''PRIMARY KEY''"
    using convertSQLiteType_cases[of up t] k(2) char_kept_in_upper[of t up]
    by auto
  show "convertSQLiteType up t \<noteq> ''AUTO_INCREMENT''"
    using convertSQLiteType_cases[of up t] k(3) char_kept_in_upper[of t up]
    by auto
qed

lemma integer_includes_int: "str_includes l ''integer'' \<Longrightarrow> str_includes l ''int''"
  by (rule str_includes_mono[of "''int''" "''integer''"]) (simp_all add: sublist_code)

section \<open>Substrings of a concatenation\<close>

text \<open>
  A string \<open>w\<close> lies in \<open>xs @ ys\<close> when it lies in \<open>xs\<close>, or in \<open>ys\<close>, or when it
  straddles the seam: a proper beginning of \<open>w\<close> ends \<open>xs\<close> and the remainder starts \<open>ys\<close>.
\<close>

lemma sublist_append_iff:
  "sublist w (xs @ ys) \<longleftrightarrow>
     sublist w xs \<or> sublist w ys
     \<or> (\<exists>k\<in>set [1..<length w]. suffix (take k w) xs \<and> prefix (drop k w) ys)"
proof
  assume "sublist w (xs @ ys)"
  then consider "sublist w xs" | "sublist w ys"
    | xs1 xs2 where "w = xs1 @ xs2" "suffix xs1 xs" "prefix xs2 ys"
    by (auto simp: sublist_append)
  then show "sublist w xs \<or> sublist w ys
     \<or> (\<exists>k\<in>set [1..<length w]. suffix (take k w) xs \<and> prefix (drop k w) ys)"
  proof cases
    case 3
    show ?thesis
    proof (cases "xs1 = [] \<or> xs2 = []")
      case True
      with 3 show ?thesis by auto
    next
      case False
      with 3 have "length xs1 \<in> set [1..<length w]"
        "take (length xs1) w = xs1" "drop (length xs1) w = xs2"
        by (auto simp: Suc_le_eq)
      with 3 show ?thesis by metis
    qed
  qed auto
next
  assume "sublist w xs \<or> sublist w ys
     \<or> (\<exists>k\<in>set [1..<length w]. suffix (take k w) xs \<and> prefix (drop k w) ys)"
  then show "sublist w (xs @ ys)"
    by (auto simp: sublist_append)
qed

section \<open>The column line: \<^verbatim>\<open>NOT NULL\<close>\<close>

lemma columnDef_lead:
  "\<exists>rest. columnDef up col =
      (''  '' @ [backtick] @ name col @ [backtick] @ '' '' @ convertSQLiteType up (type col)) @ rest
      \<and> (if truthy (notnull col) \<and> \<not> truthy (pk col) then prefix '' NOT NULL'' rest
          else \<not> prefix '' NOT NULL'' rest)"
  by (auto simp add: columnDef_def columnPieces_def split: option.splits)

lemma columnDef_NOT_NULL_substring:
  assumes "\<not> str_includes (name col) ''NOT NULL''"
    and "\<not> str_includes (convertSQLiteType up (type col)) ''NOT NULL''"
    and "\<forall>d. dflt_value col = Some d \<longrightarrow> \<not> str_includes d ''NOT NULL''"
  shows "str_includes (columnDef up col) ''NOT NULL'' \<longleftrightarrow> truthy (notnull col) \<and> \<not> truthy (pk col)"
  using assms
  by (cases "dflt_value col")
     (simp_all add: columnDef_def columnPieces_def str_includes_def backtick_def
        sublist_Cons_right sublist_append_iff)

text \<open>
  Claim C7. For every column descriptor, the piece \<^verbatim>\<open> NOT NULL\<close> is appended to the
  column line exactly when \<^verbatim>\<open>notnull\<close> is set and \<^verbatim>\<open>pk\<close> is not: it is among the
  pieces of the line, and it is the text that follows the quoted name and the mapped
  type, exactly in that case; a primary-key column never gets it, whatever its
  \<^verbatim>\<open>notnull\<close> flag. For a column whose name, mapped type and default do not hold the
  words \<^verbatim>\<open>NOT NULL\<close> themselves, the line contains \<^verbatim>\<open>NOT NULL\<close> anywhere exactly in
  that case.
\<close>

theorem notnull_clause:
  fixes col :: ColumnInfo and up :: "string \<Rightarrow> string"
  defines "lead \<equiv>
    ''  '' @ [backtick] @ name col @ [backtick] @ '' '' @ convertSQLiteType up (type col)"
  shows "('' NOT NULL'' \<in> set (columnPieces up col)
            \<longleftrightarrow> truthy (notnull col) \<and> \<not> truthy (pk col))
   \<and> ((\<exists>rest. columnDef up col = lead @ '' NOT NULL'' @ rest)
        \<longleftrightarrow> truthy (notnull col) \<and> \<not> truthy (pk col))
   \<and> (truthy (pk col) \<longrightarrow> '' NOT NULL'' \<notin> set (columnPieces up col))
   \<and> (truthy (notnull col) \<and> \<not> truthy (pk col)
        \<longrightarrow> str_includes (columnDef up col) '' NOT NULL'')
   \<and> (\<not> str_includes (name col) ''NOT NULL''
        \<and> \<not> str_includes (convertSQLiteType up (type col)) ''NOT NULL''
        \<and> (\<forall>d. dflt_value col = Some d \<longrightarrow> \<not> str_includes d ''NOT NULL'')
        \<longrightarrow> (str_includes (columnDef up col) ''NOT NULL''
              \<longleftrightarrow> truthy (notnull col) \<and> \<not> truthy (pk col)))"
proof -
  have pieces: "'' NOT NULL'' \<in> set (columnPieces up col)
      \<longleftrightarrow> truthy (notnull col) \<and> \<not> truthy (pk col)"
    using convertSQLiteType_not_keyword(1)[of up "type col"]
    by (auto simp add: columnPieces_def split: option.splits)
  from columnDef_lead[of up col] obtain rest where r: "columnDef up col = lead @ rest"
    "if truthy (notnull col) \<and> \<not> truthy (pk col) then prefix '' NOT NULL'' rest
     else \<not> prefix '' NOT NULL'' rest"
    unfolding lead_def by blast
  have pos: "(\<exists>rest. columnDef up col = lead @ '' NOT NULL'' @ rest)
        \<longleftrightarrow> truthy (notnull col) \<and> \<not> truthy (pk col)"
  proof (cases "truthy (notnull col) \<and> \<not> truthy (pk col)")
    case True
    with r(2) obtain zs where "rest = '' NOT NULL'' @ zs"
      by (auto simp: prefix_def)
    with r(1) True show ?thesis by auto
  next
    case False
    with r(2) have np: "\<not> prefix '' NOT NULL'' rest" by simp
    have "\<not> (\<exists>rest'. columnDef up col = lead @ '' NOT NULL'' @ rest')"
    proof
      assume "\<exists>rest'. columnDef up col = lead @ '' NOT NULL'' @ rest'"
      then obtain rest' where "columnDef up col = lead @ '' NOT NULL'' @ rest'" by blast
      with r(1) have "rest = '' NOT NULL'' @ rest'" by simp
      with np show False by (simp add: prefix_def)
    qed
    with False show ?thesis by blast
  qed
  have incl: "truthy (notnull col) \<and> \<not> truthy (pk col)
      \<longrightarrow> str_includes (columnDef up col) '' NOT NULL''"
  proof
    assume "truthy (notnull col) \<and> \<not> truthy (pk col)"
    with pos obtain rest' where "columnDef up col = lead @ '' NOT NULL'' @ rest'" by blast
    then show "str_includes (columnDef up col) '' NOT NULL''"
      unfolding str_includes_def by (metis sublist_appendI)
  qed
  from pieces pos incl columnDef_NOT_NULL_substring[where col = col and up = up] show ?thesis by blast
qed

text \<open>
  The theorem at three columns: \<^verbatim>\<open>name TEXT NOT NULL\<close>; a primary key
  \<^verbatim>\<open>id INTEGER\<close> whose \<^verbatim>\<open>notnull\<close> flag is set; and a nullable \<^verbatim>\<open>price REAL\<close>.
\<close>

theorem notnull_clause_witness:
  "columnDef accent_host name_column
     = ''  '' @ [backtick] @ ''name'' @ [backtick] @ '' TEXT NOT NULL''
   \<and> '' NOT NULL'' \<in> set (columnPieces accent_host name_column)
   \<and> str_includes (columnDef accent_host name_column) ''NOT NULL''
   \<and> truthy (notnull id_column) \<and> truthy (pk id_column)
   \<and> '' NOT NULL'' \<notin> set (columnPieces accent_host id_column)
   \<and> \<not> str_includes (columnDef accent_host id_column) ''NOT NULL''
   \<and> \<not> str_includes (columnDef accent_host price_column) ''NOT NULL''"
proof -
  have flags: "truthy (notnull name_column)" "\<not> truthy (pk name_column)"
    "truthy (notnull id_column)" "truthy (pk id_column)"
    "\<not> truthy (notnull price_column)"
    by (simp_all add: name_column_def id_column_def price_column_def truthy_def)
  have clean: "\<not> str_includes (name name_column) ''NOT NULL''"
    "\<not> str_includes (convertSQLiteType accent_host (type name_column)) ''NOT NULL''"
    "\<forall>d. dflt_value name_column = Some d \<longrightarrow> \<not> str_includes d ''NOT NULL''"
    "\<not> str_includes (name id_column) ''NOT NULL''"
    "\<not> str_includes (convertSQLiteType accent_host (type id_column)) ''NOT NULL''"
    "\<forall>d. dflt_value id_column = Some d \<longrightarrow> \<not> str_includes d ''NOT NULL''"
    "\<not> str_includes (name price_column) ''NOT NULL''"
    "\<not> str_includes (convertSQLiteType accent_host (type price_column)) ''NOT NULL''"
    "\<forall>d. dflt_value price_column = Some d \<longrightarrow> \<not> str_includes d ''NOT NULL''"
    by (simp_all add: name_column_def id_column_def price_column_def
          convertSQLiteType_def case_defs str_includes_def sublist_code)
  have line: "columnDef accent_host name_column
      = ''  '' @ [backtick] @ ''name'' @ [backtick] @ '' TEXT NOT NULL''"
    by (simp add: name_column_def columnDef_def columnPieces_def truthy_def
          convertSQLiteType_def case_defs str_includes_def sublist_code)
  show ?thesis
    using notnull_clause[where col = name_column and up = accent_host] notnull_clause[where col = id_column and up = accent_host]
      notnull_clause[where col = price_column and up = accent_host] flags clean line
    by blast
qed

section \<open>The column line: \<^verbatim>\<open>PRIMARY KEY\<close> and \<^verbatim>\<open>AUTO_INCREMENT\<close>\<close>

lemma columnDef_key_lead:
  assumes "truthy (pk col)"
  shows "\<exists>rest. columnDef up col =
      (''  '' @ [backtick] @ name col @ [backtick] @ '' '' @ convertSQLiteType up (type col))
      @ '' PRIMARY KEY'' @ rest
      \<and> (if str_includes (toLowerCase (type col)) ''integer''
          then prefix '' AUTO_INCREMENT'' rest else \<not> prefix '' AUTO_INCREMENT'' rest)"
  using assms
  by (auto simp add: columnDef_def columnPieces_def split: option.splits)

lemma columnDef_AUTO_INCREMENT_substring:
  assumes "\<not> str_includes (name col) ''AUTO_INCREMENT''"
    and "\<not> str_includes (convertSQLiteType up (type col)) ''AUTO_INCREMENT''"
    and "\<forall>d. dflt_value col = Some d \<longrightarrow> \<not> str_includes d ''AUTO_INCREMENT''"
  shows "str_includes (columnDef up col) ''AUTO_INCREMENT''
     \<longleftrightarrow> truthy (pk col) \<and> str_includes (toLowerCase (type col)) ''integer''"
  using assms
  by (cases "dflt_value col")
     (simp_all add: columnDef_def columnPieces_def str_includes_def backtick_def
        sublist_Cons_right sublist_append_iff)

text \<open>
  Claim C2, as amended. For every column descriptor whose \<^verbatim>\<open>pk\<close> flag is set, the
  piece \<^verbatim>\<open> PRIMARY KEY\<close> is appended to the column line; the piece
  \<^verbatim>\<open> AUTO_INCREMENT\<close> is appended exactly when \<^verbatim>\<open>pk\<close> is set and the lowered declared
  type contains \<^verbatim>\<open>integer\<close>, and then the line reads: quoted name, \<^verbatim>\<open>INT\<close>,
  \<^verbatim>\<open>PRIMARY KEY AUTO_INCREMENT\<close>. A primary-key column whose lowered declared type does
  not contain \<^verbatim>\<open>integer\<close> (so also one that does not contain \<^verbatim>\<open>int\<close>) gets
  \<^verbatim>\<open> PRIMARY KEY\<close> and no \<^verbatim>\<open> AUTO_INCREMENT\<close> after it. For a column whose name,
  mapped type and default do not hold the word \<^verbatim>\<open>AUTO_INCREMENT\<close> themselves, the line
  contains \<^verbatim>\<open>AUTO_INCREMENT\<close> anywhere exactly when \<^verbatim>\<open>pk\<close> is set and the lowered
  declared type contains \<^verbatim>\<open>integer\<close>.
\<close>

theorem auto_increment_clause:
  fixes col :: ColumnInfo
  defines "lead \<equiv> ''  '' @ [backtick] @ name col @ [backtick] @ '' ''"
  shows "('' PRIMARY KEY'' \<in> set (columnPieces up col) \<longleftrightarrow> truthy (pk col))
   \<and> ('' AUTO_INCREMENT'' \<in> set (columnPieces up col)
        \<longleftrightarrow> truthy (pk col) \<and> str_includes (toLowerCase (type col)) ''integer'')
   \<and> (truthy (pk col) \<and> str_includes (toLowerCase (type col)) ''integer''
        \<longrightarrow> (\<exists>rest. columnDef up col = lead @ ''INT PRIMARY KEY AUTO_INCREMENT'' @ rest))
   \<and> (truthy (pk col) \<and> \<not> str_includes (toLowerCase (type col)) ''integer''
        \<longrightarrow> (\<exists>rest. columnDef up col
                = lead @ convertSQLiteType up (type col) @ '' PRIMARY KEY'' @ rest
              \<and> \<not> prefix '' AUTO_INCREMENT'' rest))
   \<and> (truthy (pk col) \<and> \<not> str_includes (toLowerCase (type col)) ''int''
        \<longrightarrow> '' AUTO_INCREMENT'' \<notin> set (columnPieces up col))
   \<and> (\<not> str_includes (name col) ''AUTO_INCREMENT''
        \<and> \<not> str_includes (convertSQLiteType up (type col)) ''AUTO_INCREMENT''
        \<and> (\<forall>d. dflt_value col = Some d \<longrightarrow> \<not> str_includes d ''AUTO_INCREMENT'')
        \<longrightarrow> (str_includes (columnDef up col) ''AUTO_INCREMENT''
              \<longleftrightarrow> truthy (pk col) \<and> str_includes (toLowerCase (type col)) ''integer''))"
proof -
  have key: "'' PRIMARY KEY'' \<in> set (columnPieces up col) \<longleftrightarrow> truthy (pk col)"
    using convertSQLiteType_not_keyword(2)[of up "type col"]
    by (auto simp add: columnPieces_def split: option.splits)
  have auto_inc: "'' AUTO_INCREMENT'' \<in> set (columnPieces up col)
      \<longleftrightarrow> truthy (pk col) \<and> str_includes (toLowerCase (type col)) ''integer''"
    using convertSQLiteType_not_keyword(3)[of up "type col"]
    by (auto simp add: columnPieces_def split: option.splits)
  have mapped: "str_includes (toLowerCase (type col)) ''integer''
      \<Longrightarrow> convertSQLiteType up (type col) = ''INT''"
    using integer_includes_int[of "toLowerCase (type col)"]
    by (simp add: convertSQLiteType_def)
  have with_inc: "truthy (pk col) \<and> str_includes (toLowerCase (type col)) ''integer''
        \<longrightarrow> (\<exists>rest. columnDef up col = lead @ ''INT PRIMARY KEY AUTO_INCREMENT'' @ rest)"
  proof
    assume a: "truthy (pk col) \<and> str_includes (toLowerCase (type col)) ''integer''"
    with columnDef_key_lead[where col = col and up = up] obtain rest where
      "columnDef up col = (lead @ convertSQLiteType up (type col)) @ '' PRIMARY KEY'' @ rest"
      "prefix '' AUTO_INCREMENT'' rest"
      unfolding lead_def by auto
    moreover from this(2) obtain zs where "rest = '' AUTO_INCREMENT'' @ zs"
      by (auto simp: prefix_def)
    ultimately have "columnDef up col = lead @ ''INT PRIMARY KEY AUTO_INCREMENT'' @ zs"
      using mapped a by simp
    then show "\<exists>rest. columnDef up col = lead @ ''INT PRIMARY KEY AUTO_INCREMENT'' @ rest" ..
  qed
  have without_inc: "truthy (pk col) \<and> \<not> str_includes (toLowerCase (type col)) ''integer''
        \<longrightarrow> (\<exists>rest. columnDef up col
                = lead @ convertSQLiteType up (type col) @ '' PRIMARY KEY'' @ rest
              \<and> \<not> prefix '' AUTO_INCREMENT'' rest)"
    using columnDef_key_lead[where col = col and up = up] unfolding lead_def by auto
  have no_int: "truthy (pk col) \<and> \<not> str_includes (toLowerCase (type col)) ''int''
        \<longrightarrow> '' AUTO_INCREMENT'' \<notin> set (columnPieces up col)"
    using auto_inc integer_includes_int[of "toLowerCase (type col)"] by blast
  from key auto_inc with_inc without_inc no_int columnDef_AUTO_INCREMENT_substring[where col = col and up = up]
  show ?thesis by blast
qed

text \<open>
  The theorem at the key column \<^verbatim>\<open>id INTEGER\<close>, which gets both pieces, and at a key
  column declared \<^verbatim>\<open>TEXT\<close>, which gets \<^verbatim>\<open>PRIMARY KEY\<close> alone.
\<close>

theorem auto_increment_clause_witness:
  "'' PRIMARY KEY'' \<in> set (columnPieces accent_host id_column)
   \<and> '' AUTO_INCREMENT'' \<in> set (columnPieces accent_host id_column)
   \<and> str_includes (columnDef accent_host id_column) ''AUTO_INCREMENT''
   \<and> columnDef accent_host id_column
       = ''  '' @ [backtick] @ ''id'' @ [backtick] @ '' INT PRIMARY KEY AUTO_INCREMENT''
   \<and> truthy (pk text_key_column)
   \<and> '' PRIMARY KEY'' \<in> set (columnPieces accent_host text_key_column)
   \<and> '' AUTO_INCREMENT'' \<notin> set (columnPieces accent_host text_key_column)
   \<and> \<not> str_includes (columnDef accent_host text_key_column) ''AUTO_INCREMENT''"
proof -
  have flags: "truthy (pk id_column)" "str_includes (toLowerCase (type id_column)) ''integer''"
    "truthy (pk text_key_column)"
    "\<not> str_includes (toLowerCase (type text_key_column)) ''integer''"
    by (simp_all add: id_column_def text_key_column_def truthy_def case_defs
          str_includes_def sublist_code)
  have clean: "\<not> str_includes (name id_column) ''AUTO_INCREMENT''"
    "\<not> str_includes (convertSQLiteType accent_host (type id_column)) ''AUTO_INCREMENT''"
    "\<forall>d. dflt_value id_column = Some d \<longrightarrow> \<not> str_includes d ''AUTO_INCREMENT''"
    "\<not> str_includes (name text_key_column) ''AUTO_INCREMENT''"
    "\<not> str_includes (convertSQLiteType accent_host (type text_key_column)) ''AUTO_INCREMENT''"
    "\<forall>d. dflt_value text_key_column = Some d \<longrightarrow> \<not> str_includes d ''AUTO_INCREMENT''"
    by (simp_all add: id_column_def text_key_column_def
          convertSQLiteType_def case_defs str_includes_def sublist_code)
  have line: "columnDef accent_host id_column
      = ''  '' @ [backtick] @ ''id'' @ [backtick] @ '' INT PRIMARY KEY AUTO_INCREMENT''"
    by (simp add: id_column_def columnDef_def columnPieces_def truthy_def
          convertSQLiteType_def case_defs str_includes_def sublist_code)
  show ?thesis
    using auto_increment_clause[where col = id_column and up = accent_host] auto_increment_clause[where col = text_key_column and up = accent_host]
      flags clean line
    by blast
qed

text \<open>
  Claim C2 as it is written fails at a primary-key column declared \<^verbatim>\<open>INT\<close>: the
  declared type has integer affinity and is mapped to \<^verbatim>\<open>INT\<close>, yet the line is
  the quoted name followed by \<^verbatim>\<open>INT PRIMARY KEY\<close>, without \<^verbatim>\<open>AUTO_INCREMENT\<close>.
\<close>

theorem auto_increment_counterexample:
  "truthy (pk int_key_column)
   \<and> str_includes (toLowerCase (type int_key_column)) ''int''
   \<and> convertSQLiteType accent_host (type int_key_column) = ''INT''
   \<and> columnDef accent_host int_key_column = ''  '' @ [backtick] @ ''id'' @ [backtick] @ '' INT PRIMARY KEY''
   \<and> '' AUTO_INCREMENT'' \<notin> set (columnPieces accent_host int_key_column)
   \<and> \<not> str_includes (columnDef accent_host int_key_column) ''AUTO_INCREMENT''"
  by (simp add: int_key_column_def columnDef_def columnPieces_def truthy_def
        convertSQLiteType_def case_defs str_includes_def sublist_code backtick_def)

section \<open>Quoting of text values\<close>

lemma escape_quotes_Nil: "escape_quotes [] = []"
  by (simp add: escape_quotes_def)

lemma escape_quotes_Cons:
  "escape_quotes (c # cs) =
     (if c = single_quote then [single_quote, single_quote] else [c]) @ escape_quotes cs"
  by (simp add: escape_quotes_def)

lemma unquote_body_escape: "unquote_body (escape_quotes s @ [single_quote]) = Some s"
  by (induction s) (simp_all add: escape_quotes_Nil escape_quotes_Cons)

text \<open>
  Claim C3. A text value \<open>s\<close> is rendered as \<open>s\<close> between two single quotes, with
  every single quote of \<open>s\<close> written twice and every other character kept; and reading
  the rendered literal back (dropping the outer quotes, taking two quotes for one) gives
  \<open>s\<close> again, for every string \<open>s\<close>, with or without single quotes in it.
\<close>

theorem quoteText_roundtrip:
  "renderCell (Some (Str s)) = quoteText s
   \<and> quoteText s = [single_quote] @ escape_quotes s @ [single_quote]
   \<and> escape_quotes [] = []
   \<and> (\<forall>c cs. escape_quotes (c # cs) =
         (if c = single_quote then [single_quote, single_quote] else [c]) @ escape_quotes cs)
   \<and> parseLiteral (quoteText s) = Some s"
proof -
  have "parseLiteral (quoteText s) = Some s"
    by (simp add: quoteText_def parseLiteral_def unquote_body_escape)
  then show ?thesis
    by (simp add: renderCell_def quoteText_def escape_quotes_Nil escape_quotes_Cons)
qed

text \<open>The theorem at the value \<^verbatim>\<open>O'Brien's Mug\<close> of the specification's example.\<close>

theorem quoteText_roundtrip_witness:
  "quoteText (''O'' @ [single_quote] @ ''Brien'' @ [single_quote] @ ''s Mug'')
     = [single_quote] @ ''O'' @ [single_quote, single_quote] @ ''Brien''
       @ [single_quote, single_quote] @ ''s Mug'' @ [single_quote]
   \<and> parseLiteral ([single_quote] @ ''O'' @ [single_quote, single_quote] @ ''Brien''
       @ [single_quote, single_quote] @ ''s Mug'' @ [single_quote])
     = Some (''O'' @ [single_quote] @ ''Brien'' @ [single_quote] @ ''s Mug'')"
proof -
  have q: "quoteText (''O'' @ [single_quote] @ ''Brien'' @ [single_quote] @ ''s Mug'')
     = [single_quote] @ ''O'' @ [single_quote, single_quote] @ ''Brien''
       @ [single_quote, single_quote] @ ''s Mug'' @ [single_quote]"
    by (simp add: quoteText_def escape_quotes_def single_quote_def)
  have "parseLiteral (quoteText (''O'' @ [single_quote] @ ''Brien'' @ [single_quote] @ ''s Mug''))
     = Some (''O'' @ [single_quote] @ ''Brien'' @ [single_quote] @ ''s Mug'')"
    using quoteText_roundtrip[of "''O'' @ [single_quote] @ ''Brien'' @ [single_quote] @ ''s Mug''"]
    by blast
  with q show ?thesis by (simp only:)
qed

section \<open>The column list of the insertion statements\<close>

lemma own_cells_in_order:
  "distinct (map fst r)
   \<Longrightarrow> map (\<lambda>k. f (map_of r k)) (map fst r) = map (\<lambda>(k, v). f (Some v)) r"
proof (induction r)
  case Nil
  then show ?case by simp
next
  case (Cons kv r)
  obtain k v where kv: "kv = (k, v)" by (cases kv)
  from Cons.prems kv have notin: "k \<notin> fst ` set r" and d: "distinct (map fst r)"
    by simp_all
  have "map (\<lambda>k'. f (map_of (kv # r) k')) (map fst r) = map (\<lambda>k'. f (map_of r k')) (map fst r)"
    using notin kv by (intro map_cong) auto
  with Cons.IH[OF d] kv show ?case by simp
qed

text \<open>
  Claim C8. For a table whose row scan gives at least one row, there is one
  \<^verbatim>\<open>INSERT\<close> statement per row, in the order of the rows; every statement names the
  same columns, the keys of the first row in their order, and lists the values of its
  own row under these keys in that order. (The first row, its keys being distinct,
  lists its own cells as they stand.)
\<close>

theorem insert_column_order:
  "(select_all d t = Inr (r0 # others)
     \<longrightarrow> (\<exists>stmts. getInsertStatements d t = Inr stmts
            \<and> length stmts = length (r0 # others)
            \<and> (\<forall>i<length (r0 # others).
                  stmts ! i
                  = ''INSERT INTO '' @ [backtick] @ t @ [backtick] @ '' (''
                    @ join '', '' (map (\<lambda>k. [backtick] @ k @ [backtick]) (Object_keys r0))
                    @ '') VALUES (''
                    @ join '', ''
                        (map (\<lambda>k. renderCell (row_get ((r0 # others) ! i) k)) (Object_keys r0))
                    @ '');'')))
   \<and> (distinct (Object_keys r0)
     \<longrightarrow> map (\<lambda>k. renderCell (row_get r0 k)) (Object_keys r0)
         = map (\<lambda>(k, v). renderCell (Some v)) r0)"
proof -
  have stmts: "\<exists>stmts. getInsertStatements d t = Inr stmts
            \<and> length stmts = length (r0 # others)
            \<and> (\<forall>i<length (r0 # others).
                  stmts ! i
                  = ''INSERT INTO '' @ [backtick] @ t @ [backtick] @ '' (''
                    @ join '', '' (map (\<lambda>k. [backtick] @ k @ [backtick]) (Object_keys r0))
                    @ '') VALUES (''
                    @ join '', ''
                        (map (\<lambda>k. renderCell (row_get ((r0 # others) ! i) k)) (Object_keys r0))
                    @ '');'')"
    if "select_all d t = Inr (r0 # others)"
  proof -
    from that have g: "getInsertStatements d t
        = Inr (map (insertStatement t (Object_keys r0)) (r0 # others))"
      by (simp add: getInsertStatements_def insertStatements_def)
    have "\<forall>i<length (r0 # others).
        map (insertStatement t (Object_keys r0)) (r0 # others) ! i
        = insertStatement t (Object_keys r0) ((r0 # others) ! i)"
      using nth_map[of _ "r0 # others" "insertStatement t (Object_keys r0)"] by blast
    with g show ?thesis
      by (simp add: insertStatement_def)
  qed
  have own: "map (\<lambda>k. renderCell (row_get r0 k)) (Object_keys r0)
         = map (\<lambda>(k, v). renderCell (Some v)) r0"
    if "distinct (Object_keys r0)"
    using own_cells_in_order[of r0 renderCell] that
    by (simp add: Object_keys_def row_get_def)
  from stmts own show ?thesis by blast
qed

text \<open>
  The theorem at two rows whose keys come in different orders: both statements name
  \<^verbatim>\<open>id\<close>, then \<^verbatim>\<open>name\<close>, and both list the value of \<^verbatim>\<open>id\<close> first; the first
  row lists its own two cells.
\<close>

theorem insert_column_order_witness:
  "getInsertStatements shuffled_db ''items''
   = Inr [''INSERT INTO '' @ [backtick] @ ''items'' @ [backtick] @ '' (''
            @ [backtick] @ ''id'' @ [backtick] @ '', '' @ [backtick] @ ''name'' @ [backtick]
            @ '') VALUES (1, '' @ [single_quote] @ ''Tea'' @ [single_quote] @ '');'',
          ''INSERT INTO '' @ [backtick] @ ''items'' @ [backtick] @ '' (''
            @ [backtick] @ ''id'' @ [backtick] @ '', '' @ [backtick] @ ''name'' @ [backtick]
            @ '') VALUES (2, '' @ [single_quote] @ ''Mug'' @ [single_quote] @ '');'']
   \<and> map (\<lambda>k. renderCell (row_get [(''id'', Other ''1''), (''name'', Str ''Tea'')] k))
         (Object_keys [(''id'', Other ''1''), (''name'', Str ''Tea'')])
       = [''1'', [single_quote] @ ''Tea'' @ [single_quote]]"
proof -
  let ?r0 = "[(''id'', Other ''1''), (''name'', Str ''Tea'')]"
  let ?r1 = "[(''name'', Str ''Mug''), (''id'', Other ''2'')]"
  have d: "distinct (Object_keys ?r0)"
    by (simp add: Object_keys_def)
  have own: "map (\<lambda>k. renderCell (row_get ?r0 k)) (Object_keys ?r0)
       = [''1'', [single_quote] @ ''Tea'' @ [single_quote]]"
    using conjunct2[OF insert_column_order[of shuffled_db "''items''" ?r0 "[?r1]"], THEN mp, OF d]
    by (simp add: renderCell_def quoteText_def escape_quotes_def single_quote_def)
  have s: "select_all shuffled_db ''items'' = Inr (?r0 # [?r1])"
    by (simp add: shuffled_db_def shuffled_rows_def)
  have "\<exists>stmts. getInsertStatements shuffled_db ''items'' = Inr stmts
            \<and> length stmts = length (?r0 # [?r1])
            \<and> (\<forall>i<length (?r0 # [?r1]).
                  stmts ! i
                  = ''INSERT INTO '' @ [backtick] @ ''items'' @ [backtick] @ '' (''
                    @ join '', '' (map (\<lambda>k. [backtick] @ k @ [backtick]) (Object_keys ?r0))
                    @ '') VALUES (''
                    @ join '', ''
                        (map (\<lambda>k. renderCell (row_get ((?r0 # [?r1]) ! i) k)) (Object_keys ?r0))
                    @ '');'')"
    using conjunct1[OF insert_column_order[of shuffled_db "''items''" ?r0 "[?r1]"], THEN mp, OF s] .
  then obtain stmts where g: "getInsertStatements shuffled_db ''items'' = Inr stmts"
    and l: "length stmts = length (?r0 # [?r1])"
    and n: "\<forall>i<length (?r0 # [?r1]). stmts ! i
                  = ''INSERT INTO '' @ [backtick] @ ''items'' @ [backtick] @ '' (''
                    @ join '', '' (map (\<lambda>k. [backtick] @ k @ [backtick]) (Object_keys ?r0))
                    @ '') VALUES (''
                    @ join '', ''
                        (map (\<lambda>k. renderCell (row_get ((?r0 # [?r1]) ! i) k)) (Object_keys ?r0))
                    @ '');''"
    by blast
  have n0: "stmts ! 0 = ''INSERT INTO '' @ [backtick] @ ''items'' @ [backtick] @ '' (''
            @ [backtick] @ ''id'' @ [backtick] @ '', '' @ [backtick] @ ''name'' @ [backtick]
            @ '') VALUES (1, '' @ [single_quote] @ ''Tea'' @ [single_quote] @ '');''"
    using n[rule_format, of 0]
    by (simp add: Object_keys_def row_get_def renderCell_def quoteText_def escape_quotes_def
          single_quote_def)
  have n1: "stmts ! Suc 0 = ''INSERT INTO '' @ [backtick] @ ''items'' @ [backtick] @ '' (''
            @ [backtick] @ ''id'' @ [backtick] @ '', '' @ [backtick] @ ''name'' @ [backtick]
            @ '') VALUES (2, '' @ [single_quote] @ ''Mug'' @ [single_quote] @ '');''"
    using n[rule_format, of "Suc 0"]
    by (simp add: Object_keys_def row_get_def renderCell_def quoteText_def escape_quotes_def
          single_quote_def)
  from l have "length stmts = Suc (Suc 0)" by simp
  then obtain a b where ab: "stmts = [a, b]"
    by (metis length_0_conv length_Suc_conv)
  with n0 n1 g own show ?thesis by simp
qed

section \<open>Facts about the export run\<close>

lemma exportTable_fails_iff:
  "isl (exportTable up d t) \<longleftrightarrow> isl (table_info d t) \<or> isl (select_all d t)"
  by (auto simp add: exportTable_def getCreateTableSQL_def getInsertStatements_def
        split: sum.splits)

lemma exportTable_error:
  "exportTable up d t = Inl e \<Longrightarrow> table_info d t = Inl e \<or> select_all d t = Inl e"
  by (auto simp add: exportTable_def getCreateTableSQL_def getInsertStatements_def
        split: sum.splits)

lemma exportTables_fails:
  "\<exists>t\<in>set ts. isl (exportTable up d t)
   \<Longrightarrow> \<exists>e. \<exists>t\<in>set ts. exportTables up d ts acc = Inl e \<and> exportTable up d t = Inl e"
proof (induction ts arbitrary: acc)
  case Nil
  then show ?case by simp
next
  case (Cons t ts)
  show ?case
  proof (cases "exportTable up d t")
    case (Inl e)
    then show ?thesis by auto
  next
    case (Inr pushed)
    with Cons.prems have "\<exists>t\<in>set ts. isl (exportTable up d t)" by auto
    from Cons.IH[OF this, of "acc @ pushed"] Inr show ?thesis by auto
  qed
qed

lemma exportTables_succeeds:
  "exportTables up d ts acc = Inr ls
   \<Longrightarrow> \<exists>sections. map (exportTable up d) ts = map Inr sections \<and> ls = acc @ concat sections"
proof (induction ts arbitrary: acc)
  case Nil
  then show ?case by simp
next
  case (Cons t ts)
  then obtain pushed where p: "exportTable up d t = Inr pushed"
    and rest: "exportTables up d ts (acc @ pushed) = Inr ls"
    by (auto split: sum.splits)
  from Cons.IH[OF rest] obtain sections where
    "map (exportTable up d) ts = map Inr sections" "ls = (acc @ pushed) @ concat sections"
    by blast
  with p have "map (exportTable up d) (t # ts) = map Inr (pushed # sections)
      \<and> ls = acc @ concat (pushed # sections)"
    by simp
  then show ?case by blast
qed

lemma exportTables_all_read:
  "exportTables up d ts acc = Inr ls \<Longrightarrow> \<forall>t\<in>set ts. \<not> isl (exportTable up d t)"
proof -
  assume a: "exportTables up d ts acc = Inr ls"
  show "\<forall>t\<in>set ts. \<not> isl (exportTable up d t)"
  proof (rule ccontr)
    assume "\<not> (\<forall>t\<in>set ts. \<not> isl (exportTable up d t))"
    then have "\<exists>t\<in>set ts. isl (exportTable up d t)" by blast
    from exportTables_fails[OF this, of acc] a show False by auto
  qed
qed

lemma export_writes:
  "snd (export up sys out) = [] \<and> isl (exportLines up (db sys) (now sys))
   \<or> (\<exists>ls. exportLines up (db sys) (now sys) = Inr ls
          \<and> snd (export up sys out) = [(out, join [newline] ls)])"
  by (auto simp add: export_def Let_def split: sum.splits option.splits)

section \<open>The example database\<close>

lemma items_db_getTables: "getTables items_db = Inr [''archive'', ''items'']"
  by (simp add: getTables_def items_db_def items_master_def tables_query_def
        toLowerCase_char_def upper_letters_def lower_letters_def)

lemma items_db_exportLines:
  "exportLines up items_db timestamp
   = Inr (header timestamp
          @ [''-- Table: archive'',
             createTableStatement up ''archive'' [id_column, name_column, price_column], []]
          @ [''-- Table: items'',
             createTableStatement up ''items'' [id_column, name_column, price_column], [],
             ''-- Data for table: items'']
          @ insertStatements ''items'' items_rows @ [[]])"
proof -
  have a: "exportTable up items_db ''archive''
       = Inr [''-- Table: archive'',
              createTableStatement up ''archive'' [id_column, name_column, price_column], []]"
    by (simp add: exportTable_def getCreateTableSQL_def getInsertStatements_def items_db_def
          insertStatements_def)
  have i: "exportTable up items_db ''items''
       = Inr ([''-- Table: items'',
                 createTableStatement up ''items'' [id_column, name_column, price_column], [],
                 ''-- Data for table: items'']
              @ insertStatements ''items'' items_rows @ [[]])"
    by (simp add: exportTable_def getCreateTableSQL_def getInsertStatements_def items_db_def
          insertStatements_def items_rows_def)
  from items_db_getTables a i show ?thesis
    by (simp add: exportLines_def)
qed

section \<open>Failed reads\<close>

text \<open>
  Claim C4. When the schema read or the row scan of any enumerated table fails, the run
  ends with the error of a failed read and has called \<^verbatim>\<open>fs.writeFile\<close> not at all: no
  line built before the failure reaches the file. A run calls \<^verbatim>\<open>fs.writeFile\<close> at
  most once, and when it does, every read had succeeded and the content is the whole
  document.
\<close>

theorem export_aborts_on_failed_read:
  "(getTables (db sys) = Inr tables \<and> t \<in> set tables
      \<and> (isl (table_info (db sys) t) \<or> isl (select_all (db sys) t))
     \<longrightarrow> (\<exists>e. \<exists>t'\<in>set tables. export up sys out = (Inl e, [])
            \<and> (table_info (db sys) t' = Inl e \<or> select_all (db sys) t' = Inl e)))
   \<and> length (snd (export up sys out)) \<le> 1
   \<and> (snd (export up sys out) \<noteq> []
     \<longrightarrow> (\<exists>tables' ls. getTables (db sys) = Inr tables'
            \<and> (\<forall>t'\<in>set tables'. \<not> isl (table_info (db sys) t')
                  \<and> \<not> isl (select_all (db sys) t'))
            \<and> exportLines up (db sys) (now sys) = Inr ls
            \<and> snd (export up sys out) = [(out, join [newline] ls)]))"
proof -
  have abort: "\<exists>e. \<exists>t'\<in>set tables. export up sys out = (Inl e, [])
            \<and> (table_info (db sys) t' = Inl e \<or> select_all (db sys) t' = Inl e)"
    if g: "getTables (db sys) = Inr tables" and t: "t \<in> set tables"
      and f: "isl (table_info (db sys) t) \<or> isl (select_all (db sys) t)"
  proof -
    from t f have "\<exists>t\<in>set tables. isl (exportTable up (db sys) t)"
      using exportTable_fails_iff by blast
    from exportTables_fails[OF this, of "header (now sys)"] obtain e t' where
      e: "t' \<in> set tables" "exportTables up (db sys) tables (header (now sys)) = Inl e"
        "exportTable up (db sys) t' = Inl e"
      by blast
    from e(2) g have "export up sys out = (Inl e, [])"
      by (simp add: export_def exportLines_def)
    with e(1) exportTable_error[OF e(3)] show ?thesis by blast
  qed
  have once: "length (snd (export up sys out)) \<le> 1"
    using export_writes[of up sys out] by auto
  have after: "\<exists>tables' ls. getTables (db sys) = Inr tables'
            \<and> (\<forall>t'\<in>set tables'. \<not> isl (table_info (db sys) t')
                  \<and> \<not> isl (select_all (db sys) t'))
            \<and> exportLines up (db sys) (now sys) = Inr ls
            \<and> snd (export up sys out) = [(out, join [newline] ls)]"
    if w: "snd (export up sys out) \<noteq> []"
  proof -
    from w export_writes[of up sys out] obtain ls where
      ls: "exportLines up (db sys) (now sys) = Inr ls"
        "snd (export up sys out) = [(out, join [newline] ls)]"
      by auto
    from ls(1) obtain tables' where
      g: "getTables (db sys) = Inr tables'"
        "exportTables up (db sys) tables' (header (now sys)) = Inr ls"
      by (auto simp add: exportLines_def split: sum.splits)
    from exportTables_all_read[OF g(2)] exportTable_fails_iff
    have "\<forall>t'\<in>set tables'. \<not> isl (table_info (db sys) t') \<and> \<not> isl (select_all (db sys) t')"
      by blast
    with g(1) ls show ?thesis by blast
  qed
  from abort once after show ?thesis by blast
qed


text \<open>
  The theorem at the database whose row scan of \<^verbatim>\<open>items\<close> fails: \<^verbatim>\<open>archive\<close> is
  read first, without error; then the scan fails, and the run ends with that error and
  without a write. At the example database, whose reads all succeed, the one write
  holds the whole document.
\<close>

theorem export_aborts_on_failed_read_witness:
  "getTables broken_db = Inr [''archive'', ''items'']
   \<and> \<not> isl (exportTable accent_host broken_db ''archive'')
   \<and> select_all broken_db ''items'' = Inl (Error ''SQLITE_CORRUPT'')
   \<and> export accent_host (example_system broken_db ''2024-01-15T10:30:00.000Z'') ''out.sql''
       = (Inl (Error ''SQLITE_CORRUPT''), [])
   \<and> (\<exists>ls. exportLines accent_host items_db ''2024-01-15T10:30:00.000Z'' = Inr ls
          \<and> export accent_host (example_system items_db ''2024-01-15T10:30:00.000Z'') ''out.sql''
              = (Inr (), [(''out.sql'', join [newline] ls)]))"
proof -
  let ?sys = "example_system broken_db ''2024-01-15T10:30:00.000Z''"
  let ?ok = "example_system items_db ''2024-01-15T10:30:00.000Z''"
  have g: "getTables (db ?sys) = Inr [''archive'', ''items'']"
    by (simp add: example_system_def getTables_def broken_db_def items_db_def
          items_master_def tables_query_def toLowerCase_char_def upper_letters_def
          lower_letters_def)
  have f: "isl (table_info (db ?sys) ''items'') \<or> isl (select_all (db ?sys) ''items'')"
    by (simp add: example_system_def broken_db_def items_db_def)
  have reads: "\<And>t e. table_info (db ?sys) t \<noteq> Inl e"
    "\<And>t e. select_all (db ?sys) t = Inl e \<Longrightarrow> e = Error ''SQLITE_CORRUPT''"
    by (simp_all add: example_system_def broken_db_def items_db_def split: if_splits)
  have first: "\<not> isl (exportTable accent_host broken_db ''archive'')"
    by (simp add: exportTable_fails_iff broken_db_def items_db_def)
  from export_aborts_on_failed_read[where sys = ?sys and tables = "[''archive'', ''items'']"
      and t = "''items''" and out = "''out.sql''" and up = accent_host]
    g f
  obtain e t' where "export accent_host ?sys ''out.sql'' = (Inl e, [])"
    "table_info (db ?sys) t' = Inl e \<or> select_all (db ?sys) t' = Inl e"
    by auto
  with reads have failed: "export accent_host ?sys ''out.sql'' = (Inl (Error ''SQLITE_CORRUPT''), [])"
    by blast
  have "fst (export accent_host ?ok ''out.sql'') = Inr ()" "snd (export accent_host ?ok ''out.sql'') \<noteq> []"
    using items_db_exportLines[of accent_host "''2024-01-15T10:30:00.000Z''"]
    by (simp_all add: export_def example_system_def always_writes_def)
  with export_aborts_on_failed_read[where sys = ?ok and out = "''out.sql''" and up = accent_host]
  have "\<exists>ls. exportLines accent_host (db ?ok) (now ?ok) = Inr ls
          \<and> export accent_host ?ok ''out.sql'' = (Inr (), [(''out.sql'', join [newline] ls)])"
    by (metis prod.collapse)
  then have written: "\<exists>ls. exportLines accent_host items_db ''2024-01-15T10:30:00.000Z'' = Inr ls
          \<and> export accent_host ?ok ''out.sql'' = (Inr (), [(''out.sql'', join [newline] ls)])"
    by (simp add: example_system_def)
  from g first failed written show ?thesis
    by (simp add: example_system_def broken_db_def items_db_def)
qed

section \<open>Tables without rows\<close>

lemma map_eq_map_Inr_nth:
  assumes "map f ts = map Inr sections"
  shows "length sections = length ts \<and> (\<forall>i<length ts. f (ts ! i) = Inr (sections ! i))"
proof -
  from assms have len: "length ts = length sections"
    by (metis length_map)
  have "\<forall>i<length ts. f (ts ! i) = Inr (sections ! i)"
  proof (intro allI impI)
    fix i assume i: "i < length ts"
    then have "f (ts ! i) = map f ts ! i" by simp
    also have "\<dots> = map Inr sections ! i" using assms by simp
    also have "\<dots> = Inr (sections ! i)" using i len by simp
    finally show "f (ts ! i) = Inr (sections ! i)" .
  qed
  with len show ?thesis by simp
qed

lemma exportTable_no_rows:
  assumes "select_all d t = Inr []" and "table_info d t = Inr columns"
  shows "exportTable up d t = Inr [''-- Table: '' @ t, createTableStatement up t columns, []]"
  using assms
  by (simp add: exportTable_def getCreateTableSQL_def getInsertStatements_def
        insertStatements_def)

text \<open>
  Claim C6. For a table whose row scan gives no rows, the loop pushes exactly three
  lines: the table comment, the table-definition statement and an empty line; none of
  them is a data-section comment or an \<^verbatim>\<open>INSERT\<close> statement. The document of a run
  that succeeds is the header followed by the sections of the enumerated tables in
  order, one section per table, and the section of every table without rows is these
  three lines.
\<close>

theorem empty_table_section:
  "(select_all d t = Inr [] \<and> table_info d t = Inr columns
     \<longrightarrow> exportTable up d t = Inr [''-- Table: '' @ t, createTableStatement up t columns, []]
         \<and> prefix ''CREATE TABLE '' (createTableStatement up t columns)
         \<and> (\<forall>l\<in>set [''-- Table: '' @ t, createTableStatement up t columns, []].
               \<not> prefix ''-- Data for table: '' l \<and> \<not> prefix ''INSERT INTO '' l))
   \<and> (exportLines up d timestamp = Inr ls
     \<longrightarrow> (\<exists>tables sections.
            getTables d = Inr tables
          \<and> length sections = length tables
          \<and> ls = header timestamp @ concat sections
          \<and> (\<forall>i<length tables. exportTable up d (tables ! i) = Inr (sections ! i))
          \<and> (\<forall>i<length tables. select_all d (tables ! i) = Inr []
                \<longrightarrow> (\<exists>columns. table_info d (tables ! i) = Inr columns
                      \<and> sections ! i
                          = [''-- Table: '' @ tables ! i,
                             createTableStatement up (tables ! i) columns, []]))))"
proof -
  have one: "exportTable up d t = Inr [''-- Table: '' @ t, createTableStatement up t columns, []]
         \<and> prefix ''CREATE TABLE '' (createTableStatement up t columns)
         \<and> (\<forall>l\<in>set [''-- Table: '' @ t, createTableStatement up t columns, []].
               \<not> prefix ''-- Data for table: '' l \<and> \<not> prefix ''INSERT INTO '' l)"
    if "select_all d t = Inr []" "table_info d t = Inr columns"
    using exportTable_no_rows[OF that]
    by (simp add: createTableStatement_def)
  have whole: "\<exists>tables sections.
            getTables d = Inr tables
          \<and> length sections = length tables
          \<and> ls = header timestamp @ concat sections
          \<and> (\<forall>i<length tables. exportTable up d (tables ! i) = Inr (sections ! i))
          \<and> (\<forall>i<length tables. select_all d (tables ! i) = Inr []
                \<longrightarrow> (\<exists>columns. table_info d (tables ! i) = Inr columns
                      \<and> sections ! i
                          = [''-- Table: '' @ tables ! i,
                             createTableStatement up (tables ! i) columns, []]))"
    if run: "exportLines up d timestamp = Inr ls"
  proof -
    from run obtain tables where
      g: "getTables d = Inr tables" "exportTables up d tables (header timestamp) = Inr ls"
      by (auto simp add: exportLines_def split: sum.splits)
    from exportTables_succeeds[OF g(2)] obtain sections where
      s: "map (exportTable up d) tables = map Inr sections" "ls = header timestamp @ concat sections"
      by blast
    from map_eq_map_Inr_nth[OF s(1)] have
      n: "length sections = length tables"
         "\<forall>i<length tables. exportTable up d (tables ! i) = Inr (sections ! i)"
      by simp_all
    have "\<exists>columns. table_info d (tables ! i) = Inr columns
            \<and> sections ! i
                = [''-- Table: '' @ tables ! i, createTableStatement up (tables ! i) columns, []]"
      if i: "i < length tables" and e: "select_all d (tables ! i) = Inr []" for i
    proof -
      from n(2) i have ok: "exportTable up d (tables ! i) = Inr (sections ! i)" by simp
      then have "\<not> isl (exportTable up d (tables ! i))" by simp
      then obtain columns where c: "table_info d (tables ! i) = Inr columns"
        using exportTable_fails_iff[of up d "tables ! i"] by (cases "table_info d (tables ! i)") auto
      from exportTable_no_rows[OF e c] ok c show ?thesis by simp
    qed
    with g(1) s(2) n show ?thesis by blast
  qed
  from one whole show ?thesis by blast
qed

text \<open>
  The theorem at the example database: the table \<^verbatim>\<open>archive\<close> has no rows and gets
  its three lines, and the document holds them before the section of \<^verbatim>\<open>items\<close>.
\<close>

theorem empty_table_section_witness:
  "select_all items_db ''archive'' = Inr []
   \<and> exportTable accent_host items_db ''archive''
       = Inr [''-- Table: archive'',
              createTableStatement accent_host ''archive''
                [id_column, name_column, price_column], []]
   \<and> exportLines accent_host items_db ''2024-01-15T10:30:00.000Z''
       = Inr (header ''2024-01-15T10:30:00.000Z''
              @ [''-- Table: archive'',
                 createTableStatement accent_host ''archive''
                [id_column, name_column, price_column], []]
              @ [''-- Table: items'',
                 createTableStatement accent_host ''items''
                   [id_column, name_column, price_column], [],
                 ''-- Data for table: items'']
              @ insertStatements ''items'' items_rows @ [[]])"
proof -
  have r: "select_all items_db ''archive'' = Inr []"
    "table_info items_db ''archive'' = Inr [id_column, name_column, price_column]"
    by (simp_all add: items_db_def)
  have a: "exportTable accent_host items_db ''archive''
       = Inr [''-- Table: archive'',
              createTableStatement accent_host ''archive''
                [id_column, name_column, price_column], []]"
    using empty_table_section[where d = items_db and t = "''archive''"
        and columns = "[id_column, name_column, price_column]" and up = accent_host] r
    by simp
  from r(1) a items_db_exportLines[of accent_host "''2024-01-15T10:30:00.000Z''"] show ?thesis
    by simp
qed

section \<open>Two runs over the same database\<close>

lemma exportTables_accumulator:
  "exportTables up d ts acc
   = (case exportTables up d ts [] of Inl e \<Rightarrow> Inl e | Inr ls \<Rightarrow> Inr (acc @ ls))"
proof (induction ts arbitrary: acc)
  case Nil
  then show ?case by simp
next
  case (Cons t ts)
  show ?case
  proof (cases "exportTable up d t")
    case (Inl e)
    then show ?thesis by simp
  next
    case (Inr pushed)
    have "exportTables up d (t # ts) acc
        = (case exportTables up d ts [] of Inl e \<Rightarrow> Inl e | Inr ls \<Rightarrow> Inr ((acc @ pushed) @ ls))"
      using Inr Cons.IH[of "acc @ pushed"] by simp
    moreover have "exportTables up d (t # ts) []
        = (case exportTables up d ts [] of Inl e \<Rightarrow> Inl e | Inr ls \<Rightarrow> Inr (pushed @ ls))"
      using Inr Cons.IH[of pushed] by simp
    ultimately show ?thesis
      by (cases "exportTables up d ts []") simp_all
  qed
qed

lemma exportLines_timestamp:
  "(\<exists>e. \<forall>timestamp. exportLines up d timestamp = Inl e)
   \<or> (\<exists>body. \<forall>timestamp. exportLines up d timestamp = Inr (header timestamp @ body))"
proof (cases "getTables d")
  case (Inl e)
  then show ?thesis by (simp add: exportLines_def)
next
  case (Inr tables)
  show ?thesis
  proof (cases "exportTables up d tables []")
    case (Inl e)
    with Inr have "\<forall>timestamp. exportLines up d timestamp = Inl e"
      by (simp add: exportLines_def exportTables_accumulator[of up d tables "header _"])
    then show ?thesis by blast
  next
    case body: (Inr body)
    with Inr have "\<forall>timestamp. exportLines up d timestamp = Inr (header timestamp @ body)"
      by (simp add: exportLines_def exportTables_accumulator[of up d tables "header _"])
    then show ?thesis by blast
  qed
qed

text \<open>
  Claim C9. Two runs over the same database and the same destination either both end
  with the same read error and write nothing, or both write one document to the
  destination, and the two documents are the same text but for the timestamp: each is
  the banner line, the text \<^verbatim>\<open>-- Generated on\<close> followed by its own timestamp, and
  then a remainder that is the same in both runs. With the timestamp equal as well, the
  two runs write the same bytes.
\<close>

theorem export_deterministic_up_to_timestamp:
  "(db sys1 = db sys2
     \<longrightarrow> (\<exists>e. exportLines up (db sys1) (now sys1) = Inl e
              \<and> exportLines up (db sys2) (now sys2) = Inl e
              \<and> snd (export up sys1 out) = [] \<and> snd (export up sys2 out) = [])
        \<or> (\<exists>remainder.
              snd (export up sys1 out)
                = [(out, ''-- Exported from SQLite database'' @ [newline]
                         @ ''-- Generated on '' @ now sys1 @ remainder)]
            \<and> snd (export up sys2 out)
                = [(out, ''-- Exported from SQLite database'' @ [newline]
                         @ ''-- Generated on '' @ now sys2 @ remainder)]))
   \<and> (db sys1 = db sys2 \<and> now sys1 = now sys2
     \<longrightarrow> snd (export up sys1 out) = snd (export up sys2 out))"
proof -
  have two: "(\<exists>e. exportLines up (db sys1) (now sys1) = Inl e
              \<and> exportLines up (db sys2) (now sys2) = Inl e
              \<and> snd (export up sys1 out) = [] \<and> snd (export up sys2 out) = [])
        \<or> (\<exists>remainder.
              snd (export up sys1 out)
                = [(out, ''-- Exported from SQLite database'' @ [newline]
                         @ ''-- Generated on '' @ now sys1 @ remainder)]
            \<and> snd (export up sys2 out)
                = [(out, ''-- Exported from SQLite database'' @ [newline]
                         @ ''-- Generated on '' @ now sys2 @ remainder)])"
    if same: "db sys1 = db sys2"
  proof -
    from exportLines_timestamp[of up "db sys1"] consider
      e where "\<forall>timestamp. exportLines up (db sys1) timestamp = Inl e"
      | body where "\<forall>timestamp. exportLines up (db sys1) timestamp = Inr (header timestamp @ body)"
      by blast
    then show ?thesis
    proof cases
      case 1
      then have "exportLines up (db sys1) (now sys1) = Inl e"
        "exportLines up (db sys2) (now sys2) = Inl e"
        using same by simp_all
      moreover from this have "snd (export up sys1 out) = []" "snd (export up sys2 out) = []"
        by (simp_all add: export_def)
      ultimately show ?thesis by blast
    next
      case 2
      then have l: "exportLines up (db sys1) (now sys1) = Inr (header (now sys1) @ body)"
        "exportLines up (db sys2) (now sys2) = Inr (header (now sys2) @ body)"
        using same by simp_all
      have j: "join [newline] (header timestamp @ body)
          = ''-- Exported from SQLite database'' @ [newline]
            @ ''-- Generated on '' @ timestamp @ ([newline] @ join [newline] ([] # body))"
        for timestamp
        by (cases body) (simp_all add: header_def)
      from l have "snd (export up sys1 out) = [(out, join [newline] (header (now sys1) @ body))]"
        "snd (export up sys2 out) = [(out, join [newline] (header (now sys2) @ body))]"
        by (simp_all add: export_def Let_def split: option.splits)
      then have "snd (export up sys1 out)
                = [(out, ''-- Exported from SQLite database'' @ [newline]
                         @ ''-- Generated on '' @ now sys1
                         @ ([newline] @ join [newline] ([] # body)))]
            \<and> snd (export up sys2 out)
                = [(out, ''-- Exported from SQLite database'' @ [newline]
                         @ ''-- Generated on '' @ now sys2
                         @ ([newline] @ join [newline] ([] # body)))]"
        by (simp only: j)
      then show ?thesis by blast
    qed
  qed
  have equal: "snd (export up sys1 out) = snd (export up sys2 out)"
    if "db sys1 = db sys2 \<and> now sys1 = now sys2"
    using that by (auto simp add: export_def Let_def split: sum.splits option.splits)
  from two equal show ?thesis by blast
qed

text \<open>
  The theorem at two runs over the example database, one at \<^verbatim>\<open>2024-01-15\<close> and one
  a day later: both write, and what follows the timestamp is the same text.
\<close>

theorem export_deterministic_up_to_timestamp_witness:
  "\<exists>remainder.
      snd (export accent_host (example_system items_db ''2024-01-15T10:30:00.000Z'') ''out.sql'')
        = [(''out.sql'', ''-- Exported from SQLite database'' @ [newline]
                 @ ''-- Generated on 2024-01-15T10:30:00.000Z'' @ remainder)]
    \<and> snd (export accent_host (example_system items_db ''2024-01-16T10:30:00.000Z'') ''out.sql'')
        = [(''out.sql'', ''-- Exported from SQLite database'' @ [newline]
                 @ ''-- Generated on 2024-01-16T10:30:00.000Z'' @ remainder)]"
proof -
  let ?s1 = "example_system items_db ''2024-01-15T10:30:00.000Z''"
  let ?s2 = "example_system items_db ''2024-01-16T10:30:00.000Z''"
  have same: "db ?s1 = db ?s2" by (simp add: example_system_def)
  have ok: "exportLines accent_host (db ?s1) (now ?s1) \<noteq> Inl e" for e
    using items_db_exportLines[of accent_host "''2024-01-15T10:30:00.000Z''"] by (simp add: example_system_def)
  have t: "now ?s1 = ''2024-01-15T10:30:00.000Z''" "now ?s2 = ''2024-01-16T10:30:00.000Z''"
    by (simp_all add: example_system_def)
  from conjunct1[OF export_deterministic_up_to_timestamp[where ?sys1.0 = ?s1 and ?sys2.0 = ?s2
      and out = "''out.sql''" and up = accent_host], THEN mp, OF same]
    ok
  have "\<exists>remainder.
              snd (export accent_host ?s1 ''out.sql'')
                = [(''out.sql'', ''-- Exported from SQLite database'' @ [newline]
                         @ ''-- Generated on '' @ now ?s1 @ remainder)]
            \<and> snd (export accent_host ?s2 ''out.sql'')
                = [(''out.sql'', ''-- Exported from SQLite database'' @ [newline]
                         @ ''-- Generated on '' @ now ?s2 @ remainder)]"
    by blast
  then show ?thesis
    unfolding t by simp
qed

section \<open>The enumeration of the tables\<close>

lemma sql_like_percent: "sql_like ''%'' s"
  by (induction s) simp_all

text \<open>A pattern character other than the two wildcards takes one character of the name.\<close>

lemma sql_like_plain:
  "p \<noteq> CHR ''%'' \<Longrightarrow> p \<noteq> CHR ''_'' \<Longrightarrow>
   sql_like (p # ps) s \<longleftrightarrow> (\<exists>c t. s = c # t \<and> toLowerCase_char p = toLowerCase_char c \<and> sql_like ps t)"
  by (cases s) simp_all

lemma sql_like_underscore:
  "sql_like (CHR ''_'' # ps) s \<longleftrightarrow> (\<exists>c t. s = c # t \<and> sql_like ps t)"
  by (cases s) simp_all

text \<open>
  What the pattern \<^verbatim>\<open>sqlite_%\<close> matches: the names of at least seven characters
  whose first six are \<^verbatim>\<open>sqlite\<close> in any case. The seventh character is free.
\<close>

lemma sql_like_sqlite:
  "sql_like ''sqlite_%'' n \<longleftrightarrow>
     (\<exists>c1 c2 c3 c4 c5 c6 c7 t. n = c1 # c2 # c3 # c4 # c5 # c6 # c7 # t
        \<and> toLowerCase [c1, c2, c3, c4, c5, c6] = ''sqlite'')"
proof -
  have low: "toLowerCase_char CHR ''s'' = CHR ''s''" "toLowerCase_char CHR ''q'' = CHR ''q''"
    "toLowerCase_char CHR ''l'' = CHR ''l''" "toLowerCase_char CHR ''i'' = CHR ''i''"
    "toLowerCase_char CHR ''t'' = CHR ''t''" "toLowerCase_char CHR ''e'' = CHR ''e''"
    by (simp_all add: toLowerCase_char_def upper_letters_def lower_letters_def)
  show ?thesis
    by (simp only: sql_like_plain sql_like_underscore sql_like_percent low toLowerCase_def
          char.inject list.map simp_thms) 
       (auto)
qed

text \<open>Every reserved name is left out of the enumeration.\<close>

lemma reserved_name_excluded: "reserved_name n \<Longrightarrow> sql_like ''sqlite_%'' n"
proof -
  assume "reserved_name n"
  then obtain zs where "map toLowerCase_char n = ''sqlite_'' @ zs"
    by (auto simp add: reserved_name_def prefix_def toLowerCase_def)
  then have "\<exists>c1 c2 c3 c4 c5 c6 c7 t. n = c1 # c2 # c3 # c4 # c5 # c6 # c7 # t
        \<and> toLowerCase [c1, c2, c3, c4, c5, c6] = ''sqlite''"
    by (auto simp add: map_eq_Cons_conv toLowerCase_def)
  then show ?thesis
    using sql_like_sqlite[of n] by blast
qed

text \<open>
  The enumeration is sorted by the order of the character codes, and strictly so when
  the names of the catalogue are distinct.
\<close>

lemma getTables_sorted:
  assumes "getTables d = Inr tables"
  shows "sorted tables"
  using assms
  by (auto simp add: getTables_def tables_query_def split: sum.splits)

lemma getTables_strictly_sorted:
  assumes "getTables d = Inr tables" and "sqlite_master d = Inr master"
    and "distinct (map obj_name master)"
  shows "sorted_wrt (<) tables"
proof -
  from assms(1,2) have t: "tables = map obj_name (tables_query master)"
    by (simp add: getTables_def)
  have "distinct (map obj_name (filter P master))" for P
    using assms(3) by (rule distinct_map_filter)
  then have "distinct (map obj_name (sort_key obj_name (filter P master)))" for P
    by (simp add: distinct_map)
  then have "distinct (map obj_name (tables_query master))"
    unfolding tables_query_def .
  with t getTables_sorted[OF assms(1)] show ?thesis
    by (simp add: strict_sorted_iff)
qed

text \<open>
  One table-definition statement per enumerated table: in the document of a run that
  succeeds, the lines that start with \<^verbatim>\<open>CREATE TABLE\<close> are as many as the tables the
  enumeration gave.
\<close>

lemma insertStatements_not_create:
  "filter (prefix ''CREATE TABLE '') (insertStatements t rows) = []"
  by (cases rows) (auto simp add: insertStatements_def insertStatement_def filter_empty_conv)

lemma exportTable_one_create:
  assumes "exportTable up d t = Inr pushed"
  shows "length (filter (prefix ''CREATE TABLE '') pushed) = 1"
proof -
  from assms obtain columns rows where
    "pushed = [''-- Table: '' @ t, createTableStatement up t columns, []]
       @ (if length (insertStatements t rows) > 0
          then [''-- Data for table: '' @ t] @ insertStatements t rows @ [[]] else [])"
    by (auto simp add: exportTable_def getCreateTableSQL_def getInsertStatements_def
          split: sum.splits)
  then show ?thesis
    by (simp add: insertStatements_not_create createTableStatement_def)
qed

lemma exportTables_create_count:
  "exportTables up d ts acc = Inr ls
   \<Longrightarrow> length (filter (prefix ''CREATE TABLE '') ls)
       = length (filter (prefix ''CREATE TABLE '') acc) + length ts"
proof (induction ts arbitrary: acc)
  case Nil
  then show ?case by simp
next
  case (Cons t ts)
  then obtain pushed where p: "exportTable up d t = Inr pushed"
    and rest: "exportTables up d ts (acc @ pushed) = Inr ls"
    by (auto split: sum.splits)
  from Cons.IH[OF rest] exportTable_one_create[OF p] show ?case by simp
qed

lemma document_create_count:
  assumes "exportLines up d timestamp = Inr ls" and "getTables d = Inr tables"
  shows "length (filter (prefix ''CREATE TABLE '') ls) = length tables"
  using assms exportTables_create_count[of up d tables "header timestamp" ls]
  by (simp add: exportLines_def header_def)

text \<open>
  Claim C5, at the database whose only table is named \<^verbatim>\<open>sqlitex\<close>. The name is not
  reserved, so the database has one user table; but the pattern \<^verbatim>\<open>sqlite_%\<close> of the
  query matches it, the underscore standing for the \<^verbatim>\<open>x\<close>. The enumeration is empty,
  and the document is the header alone, with no table-definition statement.
\<close>

theorem getTables_drops_user_table:
  "user_tables [\<lparr>obj_type = ''table'', obj_name = ''sqlitex''\<rparr>]
     = [\<lparr>obj_type = ''table'', obj_name = ''sqlitex''\<rparr>]
   \<and> sql_like ''sqlite_%'' ''sqlitex''
   \<and> getTables sqlitex_db = Inr []
   \<and> exportLines accent_host sqlitex_db ''2024-01-15T10:30:00.000Z''
       = Inr [''-- Exported from SQLite database'',
              ''-- Generated on 2024-01-15T10:30:00.000Z'', []]
   \<and> filter (prefix ''CREATE TABLE '')
        [''-- Exported from SQLite database'',
         ''-- Generated on 2024-01-15T10:30:00.000Z'', []] = []"
proof -
  have u: "user_tables [\<lparr>obj_type = ''table'', obj_name = ''sqlitex''\<rparr>]
     = [\<lparr>obj_type = ''table'', obj_name = ''sqlitex''\<rparr>]"
    by (simp add: user_tables_def reserved_name_def case_defs)
  have m: "sql_like ''sqlite_%'' ''sqlitex''"
    by (simp add: toLowerCase_char_def upper_letters_def lower_letters_def)
  then have g: "getTables sqlitex_db = Inr []"
    by (simp add: getTables_def sqlitex_db_def tables_query_def)
  then have l: "exportLines accent_host sqlitex_db ''2024-01-15T10:30:00.000Z''
       = Inr [''-- Exported from SQLite database'',
              ''-- Generated on 2024-01-15T10:30:00.000Z'', []]"
    by (simp add: exportLines_def header_def)
  from u m g l show ?thesis by simp
qed

end
